theory Spec2Isabelle
  imports Complex_Main
begin

section \<open>Photometric error evaluation (bpvo, photo\_error.cc)\<close>

text \<open>
  The embedding follows \<^verbatim>\<open>src/bpvo/photo_error.cc\<close>. Buffers reached through raw
  pointers (\<^verbatim>\<open>I0_ptr\<close>, \<^verbatim>\<open>I1_ptr\<close>, \<^verbatim>\<open>r_ptr\<close>, \<^verbatim>\<open>_valid_ptr\<close>) and the
  \<^verbatim>\<open>std::vector\<close> members are lists; an access outside a buffer, which is undefined
  behaviour in C++, is the error value \<open>OutOfBounds\<close> naming the buffer and the index
  (\<open>Misaligned\<close> is an aligned SSE access at an address that is not a multiple of 16).
  The three caller buffers are taken to be distinct objects. Indices are C \<^verbatim>\<open>int\<close>s,
  modelled as \<open>int\<close>; the point count is taken to fit an \<^verbatim>\<open>int\<close>.

  Single-precision arithmetic is not fixed: every function that computes with
  \<^verbatim>\<open>float\<close> takes the arithmetic as a record of operations over a type \<open>'f\<close>, so
  that what is proved holds for IEEE arithmetic as for any other. Concrete runs use
  the exact arithmetic of \<open>real\<close>, at values where single precision is exact too.
\<close>

subsection \<open>Faults and memory access\<close>

datatype buffer = I1_buf | I0_buf | r_buf | inds_buf | coeffs_buf | valid_buf

datatype fault = OutOfBounds buffer int | Misaligned buffer nat

definition bind_f :: "fault + 'a \<Rightarrow> ('a \<Rightarrow> fault + 'b) \<Rightarrow> fault + 'b" where
  "bind_f m f = (case m of Inl e \<Rightarrow> Inl e | Inr x \<Rightarrow> f x)"

text \<open>\<open>rd b xs k\<close> is the read \<^verbatim>\<open>xs[k]\<close> (or \<^verbatim>\<open>*(xs + k)\<close>) of buffer \<open>b\<close>.\<close>

definition rd :: "buffer \<Rightarrow> 'a list \<Rightarrow> int \<Rightarrow> fault + 'a" where
  "rd b xs k = (if 0 \<le> k \<and> k < int (length xs) then Inr (xs ! nat k)
                else Inl (OutOfBounds b k))"

text \<open>\<open>wr b xs k v\<close> is the write \<^verbatim>\<open>xs[k] = v\<close>.\<close>

definition wr :: "buffer \<Rightarrow> 'a list \<Rightarrow> int \<Rightarrow> 'a \<Rightarrow> fault + 'a list" where
  "wr b xs k v = (if 0 \<le> k \<and> k < int (length xs) then Inr (xs[nat k := v])
                  else Inl (OutOfBounds b k))"

subsection \<open>Float arithmetic and four-lane vectors\<close>

record 'f arith =
  fzero :: 'f
  fadd :: "'f \<Rightarrow> 'f \<Rightarrow> 'f"
  fsub :: "'f \<Rightarrow> 'f \<Rightarrow> 'f"
  fmul :: "'f \<Rightarrow> 'f \<Rightarrow> 'f"

definition real_arith :: "real arith" where
  "real_arith = \<lparr>fzero = 0, fadd = (+), fsub = (-), fmul = (*)\<rparr>"

text \<open>
  \<^verbatim>\<open>Eigen::Matrix<float,4,1>\<close> and \<^verbatim>\<open>__m128\<close> both hold four floats; lane 0 is
  written first.
\<close>

datatype 'f Vector4 = Vector4 'f 'f 'f 'f

type_synonym 'f m128 = "'f Vector4"

definition mm_setr_ps :: "'f \<Rightarrow> 'f \<Rightarrow> 'f \<Rightarrow> 'f \<Rightarrow> 'f m128" where
  "mm_setr_ps e0 e1 e2 e3 = Vector4 e0 e1 e2 e3"

fun mm_sub_ps :: "'f arith \<Rightarrow> 'f m128 \<Rightarrow> 'f m128 \<Rightarrow> 'f m128" where
  "mm_sub_ps ops (Vector4 a0 a1 a2 a3) (Vector4 b0 b1 b2 b3) =
     Vector4 (fsub ops a0 b0) (fsub ops a1 b1) (fsub ops a2 b2) (fsub ops a3 b3)"

fun mm_mul_ps :: "'f arith \<Rightarrow> 'f m128 \<Rightarrow> 'f m128 \<Rightarrow> 'f m128" where
  "mm_mul_ps ops (Vector4 a0 a1 a2 a3) (Vector4 b0 b1 b2 b3) =
     Vector4 (fmul ops a0 b0) (fmul ops a1 b1) (fmul ops a2 b2) (fmul ops a3 b3)"

fun mm_hadd_ps :: "'f arith \<Rightarrow> 'f m128 \<Rightarrow> 'f m128 \<Rightarrow> 'f m128" where
  "mm_hadd_ps ops (Vector4 a0 a1 a2 a3) (Vector4 b0 b1 b2 b3) =
     Vector4 (fadd ops a0 a1) (fadd ops a2 a3) (fadd ops b0 b1) (fadd ops b2 b3)"

text \<open>
  \<^verbatim>\<open>_mm_shuffle_ps(a, b, _MM_SHUFFLE(1,0,1,0))\<close>: lanes 0 and 1 of \<open>a\<close>, then lanes
  0 and 1 of \<open>b\<close>.
\<close>

fun mm_shuffle_ps_1010 :: "'f m128 \<Rightarrow> 'f m128 \<Rightarrow> 'f m128" where
  "mm_shuffle_ps_1010 (Vector4 a0 a1 a2 a3) (Vector4 b0 b1 b2 b3) = Vector4 a0 a1 b0 b1"

text \<open>
  \<^verbatim>\<open>_mm_dp_ps(a, b, 0xff)\<close>: all four products enter the sum, which is added in
  pairs as the instruction is documented to do, and goes to every lane.
\<close>

fun mm_dp_ps_ff :: "'f arith \<Rightarrow> 'f m128 \<Rightarrow> 'f m128 \<Rightarrow> 'f m128" where
  "mm_dp_ps_ff ops (Vector4 a0 a1 a2 a3) (Vector4 b0 b1 b2 b3) =
     (let s = fadd ops (fadd ops (fmul ops a0 b0) (fmul ops a1 b1))
                       (fadd ops (fmul ops a2 b2) (fmul ops a3 b3))
      in Vector4 s s s s)"

fun mm_store_ss :: "'f m128 \<Rightarrow> 'f" where
  "mm_store_ss (Vector4 a0 a1 a2 a3) = a0"

text \<open>
  \<^verbatim>\<open>a.dot(b)\<close> of Eigen; the source's comment on it reads ``EIGEN uses 2 applications
  of hadd after mul'', and it is modelled so.
\<close>

definition eigen_dot :: "'f arith \<Rightarrow> 'f Vector4 \<Rightarrow> 'f Vector4 \<Rightarrow> 'f" where
  "eigen_dot ops a b =
     (let t0 = mm_mul_ps ops a b;
          t1 = mm_hadd_ps ops t0 t0;
          t2 = mm_hadd_ps ops t1 t1
      in mm_store_ss t2)"

text \<open>Unaligned load and store of four consecutive floats at \<^verbatim>\<open>p + k\<close>.\<close>

definition mm_loadu_ps :: "buffer \<Rightarrow> 'f list \<Rightarrow> int \<Rightarrow> fault + 'f m128" where
  "mm_loadu_ps b xs k =
     bind_f (rd b xs k) (\<lambda>e0.
     bind_f (rd b xs (k + 1)) (\<lambda>e1.
     bind_f (rd b xs (k + 2)) (\<lambda>e2.
     bind_f (rd b xs (k + 3)) (\<lambda>e3.
     Inr (Vector4 e0 e1 e2 e3)))))"

fun mm_storeu_ps :: "buffer \<Rightarrow> 'f list \<Rightarrow> int \<Rightarrow> 'f m128 \<Rightarrow> fault + 'f list" where
  "mm_storeu_ps b xs k (Vector4 e0 e1 e2 e3) =
     bind_f (wr b xs k e0) (\<lambda>xs0.
     bind_f (wr b xs0 (k + 1) e1) (\<lambda>xs1.
     bind_f (wr b xs1 (k + 2) e2) (\<lambda>xs2.
     wr b xs2 (k + 3) e3)))"

text \<open>
  The aligned forms fault unless the byte address is a multiple of 16. A buffer of
  floats that starts at byte address \<open>base\<close> has its element \<open>k\<close> at \<open>base + 4 * k\<close>.
\<close>

definition elem_addr :: "nat \<Rightarrow> int \<Rightarrow> int" where
  "elem_addr base k = int base + 4 * k"

definition mm_load_ps :: "buffer \<Rightarrow> nat \<Rightarrow> 'f list \<Rightarrow> int \<Rightarrow> fault + 'f m128" where
  "mm_load_ps b base xs k =
     (if elem_addr base k mod 16 = 0 then mm_loadu_ps b xs k
      else Inl (Misaligned b (nat (elem_addr base k))))"

definition mm_store_ps :: "buffer \<Rightarrow> nat \<Rightarrow> 'f list \<Rightarrow> int \<Rightarrow> 'f m128 \<Rightarrow> fault + 'f list" where
  "mm_store_ps b base xs k v =
     (if elem_addr base k mod 16 = 0 then mm_storeu_ps b xs k v
      else Inl (Misaligned b (nat (elem_addr base k))))"

text \<open>
  Modelled from the spec: \<^verbatim>\<open>simd::isAligned<16>\<close> comes from \<^verbatim>\<open>bpvo/simd.h\<close>, which
  is not among the sources. The branch it guards is described as the one taken when
  \<open>r\<close> and \<open>I0\<close> are 16-byte aligned: the address is a multiple of 16.
\<close>

definition isAligned16 :: "nat \<Rightarrow> bool" where
  "isAligned16 p = (p mod 16 = 0)"

subsection \<open>The evaluator's state and build configuration\<close>

text \<open>
  The build decides \<^verbatim>\<open>WITH_SIMD\<close> and \<^verbatim>\<open>__SSE4_1__\<close>; the model takes both as
  inputs. \<open>valid_ptr\<close> holds the array \<^verbatim>\<open>_valid_ptr\<close> points to, the caller's
  validity vector (empty while the pointer is null).
\<close>

record config =
  WITH_SIMD :: bool
  SSE4_1 :: bool

record 'f Impl =
  stride :: int
  interp_coeffs :: "'f Vector4 list"
  inds :: "int list"
  valid_ptr :: "bool list"

subsection \<open>Sampling one point\<close>

definition load_data :: "'f Impl \<Rightarrow> 'f list \<Rightarrow> int \<Rightarrow> fault + 'f Vector4" where
  "load_data s ptr i =
     bind_f (rd inds_buf (inds s) i) (\<lambda>p.
     bind_f (rd I1_buf ptr p) (\<lambda>e0.
     bind_f (rd I1_buf ptr (p + 1)) (\<lambda>e1.
     bind_f (rd I1_buf ptr (p + stride s)) (\<lambda>e2.
     bind_f (rd I1_buf ptr (p + stride s + 1)) (\<lambda>e3.
     Inr (Vector4 e0 e1 e2 e3))))))"

definition load_data_simd :: "'f Impl \<Rightarrow> 'f list \<Rightarrow> int \<Rightarrow> fault + 'f m128" where
  "load_data_simd s ptr p =
     bind_f (mm_loadu_ps I1_buf ptr p) (\<lambda>a.
     bind_f (mm_loadu_ps I1_buf ptr (p + stride s)) (\<lambda>b.
     Inr (mm_shuffle_ps_1010 a b)))"

text \<open>The \<^verbatim>\<open>__m128\<close> overload of \<^verbatim>\<open>dot_\<close>.\<close>

definition dot_m128 :: "config \<Rightarrow> 'f arith \<Rightarrow> 'f m128 \<Rightarrow> 'f m128 \<Rightarrow> 'f" where
  "dot_m128 cfg ops a b =
     (if SSE4_1 cfg then mm_store_ss (mm_dp_ps_ff ops a b)
      else (let t0 = mm_mul_ps ops a b;
                t1 = mm_hadd_ps ops t0 t0;
                t2 = mm_hadd_ps ops t1 t1
            in mm_store_ss t2))"

text \<open>The \<^verbatim>\<open>Vector4\<close> overload of \<^verbatim>\<open>dot_\<close>.\<close>

definition dot_Vector4 :: "config \<Rightarrow> 'f arith \<Rightarrow> 'f Vector4 \<Rightarrow> 'f Vector4 \<Rightarrow> 'f" where
  "dot_Vector4 cfg ops a b =
     (if SSE4_1 cfg then mm_store_ss (mm_dp_ps_ff ops a b)
      else eigen_dot ops a b)"

text \<open>
  \<^verbatim>\<open>operator()(ptr, i)\<close>: the sample of the target image at point \<open>i\<close>, or
  \<^verbatim>\<open>0.0f\<close> when the point is not valid.
\<close>

definition operator_call :: "config \<Rightarrow> 'f arith \<Rightarrow> 'f Impl \<Rightarrow> 'f list \<Rightarrow> int \<Rightarrow> fault + 'f" where
  "operator_call cfg ops s ptr i =
     bind_f (rd valid_buf (valid_ptr s) i) (\<lambda>v.
       if v then
         (if WITH_SIMD cfg then
            bind_f (rd coeffs_buf (interp_coeffs s) i) (\<lambda>c.
            bind_f (rd inds_buf (inds s) i) (\<lambda>p.
            bind_f (load_data_simd s ptr p) (\<lambda>d.
            Inr (dot_m128 cfg ops c d))))
          else
            bind_f (rd coeffs_buf (interp_coeffs s) i) (\<lambda>c.
            bind_f (load_data s ptr i) (\<lambda>d.
            Inr (dot_Vector4 cfg ops c d))))
       else Inr (fzero ops))"

subsection \<open>The residual loops of run\<close>

text \<open>Four samples in one register: the \<^verbatim>\<open>_mm_setr_ps\<close> of four calls.\<close>

definition setr_samples :: "config \<Rightarrow> 'f arith \<Rightarrow> 'f Impl \<Rightarrow> 'f list \<Rightarrow> int \<Rightarrow> fault + 'f m128" where
  "setr_samples cfg ops s I1 i =
     bind_f (operator_call cfg ops s I1 (i + 0)) (\<lambda>e0.
     bind_f (operator_call cfg ops s I1 (i + 1)) (\<lambda>e1.
     bind_f (operator_call cfg ops s I1 (i + 2)) (\<lambda>e2.
     bind_f (operator_call cfg ops s I1 (i + 3)) (\<lambda>e3.
     Inr (mm_setr_ps e0 e1 e2 e3)))))"

text \<open>One \<^verbatim>\<open>_mm_store_ps(r_ptr + i, _mm_sub_ps(_mm_setr_ps(...), _mm_load_ps(I0_ptr + i)))\<close>.\<close>

definition store4_aligned ::
  "config \<Rightarrow> 'f arith \<Rightarrow> 'f Impl \<Rightarrow> nat \<Rightarrow> 'f list \<Rightarrow> 'f list \<Rightarrow> nat \<Rightarrow> int \<Rightarrow> 'f list
     \<Rightarrow> fault + 'f list" where
  "store4_aligned cfg ops s I0_ptr I0 I1 r_ptr i r =
     bind_f (setr_samples cfg ops s I1 i) (\<lambda>v.
     bind_f (mm_load_ps I0_buf I0_ptr I0 i) (\<lambda>a.
     mm_store_ps r_buf r_ptr r i (mm_sub_ps ops v a)))"

definition store4_unaligned ::
  "config \<Rightarrow> 'f arith \<Rightarrow> 'f Impl \<Rightarrow> 'f list \<Rightarrow> 'f list \<Rightarrow> int \<Rightarrow> 'f list \<Rightarrow> fault + 'f list" where
  "store4_unaligned cfg ops s I0 I1 i r =
     bind_f (setr_samples cfg ops s I1 i) (\<lambda>v.
     bind_f (mm_loadu_ps I0_buf I0 i) (\<lambda>a.
     mm_storeu_ps r_buf r i (mm_sub_ps ops v a)))"

text \<open>The loop of the aligned branch, from index \<open>i\<close>; it returns the final index too.\<close>

function loop_aligned ::
  "config \<Rightarrow> 'f arith \<Rightarrow> 'f Impl \<Rightarrow> nat \<Rightarrow> 'f list \<Rightarrow> 'f list \<Rightarrow> nat \<Rightarrow> int \<Rightarrow> int \<Rightarrow> 'f list
     \<Rightarrow> fault + (int \<times> 'f list)" where
  "loop_aligned cfg ops s I0_ptr I0 I1 r_ptr num_points i r =
     (if i \<le> num_points - 8 then
        (case store4_aligned cfg ops s I0_ptr I0 I1 r_ptr i r of
           Inl e \<Rightarrow> Inl e
         | Inr r1 \<Rightarrow>
             (case store4_aligned cfg ops s I0_ptr I0 I1 r_ptr (i + 4) r1 of
                Inl e \<Rightarrow> Inl e
              | Inr r2 \<Rightarrow> loop_aligned cfg ops s I0_ptr I0 I1 r_ptr num_points (i + 8) r2))
      else Inr (i, r))"
  by pat_completeness auto
termination
  by (relation "measure (\<lambda>(cfg, ops, s, I0_ptr, I0, I1, r_ptr, num_points, i, r).
                  nat (num_points - i))") auto

function loop_unaligned ::
  "config \<Rightarrow> 'f arith \<Rightarrow> 'f Impl \<Rightarrow> 'f list \<Rightarrow> 'f list \<Rightarrow> int \<Rightarrow> int \<Rightarrow> 'f list
     \<Rightarrow> fault + (int \<times> 'f list)" where
  "loop_unaligned cfg ops s I0 I1 num_points i r =
     (if i \<le> num_points - 8 then
        (case store4_unaligned cfg ops s I0 I1 i r of
           Inl e \<Rightarrow> Inl e
         | Inr r1 \<Rightarrow>
             (case store4_unaligned cfg ops s I0 I1 (i + 4) r1 of
                Inl e \<Rightarrow> Inl e
              | Inr r2 \<Rightarrow> loop_unaligned cfg ops s I0 I1 num_points (i + 8) r2))
      else Inr (i, r))"
  by pat_completeness auto
termination
  by (relation "measure (\<lambda>(cfg, ops, s, I0, I1, num_points, i, r). nat (num_points - i))") auto

declare loop_aligned.simps [simp del] loop_unaligned.simps [simp del]

text \<open>One \<^verbatim>\<open>r_ptr[i] = this->operator()(I1_ptr, i) - I0_ptr[i]\<close>.\<close>

definition store1 ::
  "config \<Rightarrow> 'f arith \<Rightarrow> 'f Impl \<Rightarrow> 'f list \<Rightarrow> 'f list \<Rightarrow> int \<Rightarrow> 'f list \<Rightarrow> fault + 'f list" where
  "store1 cfg ops s I0 I1 i r =
     bind_f (operator_call cfg ops s I1 i) (\<lambda>v.
     bind_f (rd I0_buf I0 i) (\<lambda>a.
     wr r_buf r i (fsub ops v a)))"

text \<open>The element-by-element loop \<^verbatim>\<open>for( ; i < num_points; ++i)\<close>.\<close>

function loop_tail ::
  "config \<Rightarrow> 'f arith \<Rightarrow> 'f Impl \<Rightarrow> 'f list \<Rightarrow> 'f list \<Rightarrow> int \<Rightarrow> int \<Rightarrow> 'f list
     \<Rightarrow> fault + 'f list" where
  "loop_tail cfg ops s I0 I1 num_points i r =
     (if i < num_points then
        (case store1 cfg ops s I0 I1 i r of
           Inl e \<Rightarrow> Inl e
         | Inr r1 \<Rightarrow> loop_tail cfg ops s I0 I1 num_points (i + 1) r1)
      else Inr r)"
  by pat_completeness auto
termination
  by (relation "measure (\<lambda>(cfg, ops, s, I0, I1, num_points, i, r). nat (num_points - i))") auto

declare loop_tail.simps [simp del]

text \<open>
  \<^verbatim>\<open>PhotoError::Impl::run\<close>. \<open>I0_ptr\<close> and \<open>r_ptr\<close> are the byte addresses of the
  buffers \<open>I0\<close> and \<open>r\<close>; the result is the residual buffer after the call.
\<close>

definition Impl_run ::
  "config \<Rightarrow> 'f arith \<Rightarrow> 'f Impl \<Rightarrow> nat \<Rightarrow> 'f list \<Rightarrow> 'f list \<Rightarrow> nat \<Rightarrow> 'f list
     \<Rightarrow> fault + 'f list" where
  "Impl_run cfg ops s I0_ptr I0 I1 r_ptr r =
     (let num_points = int (length (interp_coeffs s)) in
      if num_points = 0 then Inr r
      else
        bind_f (if isAligned16 r_ptr \<and> isAligned16 I0_ptr
                then loop_aligned cfg ops s I0_ptr I0 I1 r_ptr num_points 0 r
                else loop_unaligned cfg ops s I0 I1 num_points 0 r) (\<lambda>(i, r1).
        loop_tail cfg ops s I0 I1 num_points i r1))"

text \<open>
  The element-by-element path on its own: the loop \<^verbatim>\<open>for( ; i < num_points; ++i)\<close>
  of \<^verbatim>\<open>run\<close> started at \<open>i = 0\<close>, which is what \<^verbatim>\<open>run\<close> executes when fewer
  than eight points are left. It is the scalar reference the batched loops are compared
  with.
\<close>

definition run_scalar ::
  "config \<Rightarrow> 'f arith \<Rightarrow> 'f Impl \<Rightarrow> 'f list \<Rightarrow> 'f list \<Rightarrow> 'f list \<Rightarrow> fault + 'f list" where
  "run_scalar cfg ops s I0 I1 r =
     loop_tail cfg ops s I0 I1 (int (length (interp_coeffs s))) 0 r"

text \<open>
  \<^verbatim>\<open>PhotoError\<close> owns one \<^verbatim>\<open>Impl\<close>; \<^verbatim>\<open>PhotoError::run\<close> is a \<^verbatim>\<open>const\<close> method
  that forwards to it. The model returns the object after the call next to the buffer.
\<close>

record 'f PhotoError =
  impl :: "'f Impl"

definition PhotoError_run ::
  "config \<Rightarrow> 'f arith \<Rightarrow> 'f PhotoError \<Rightarrow> nat \<Rightarrow> 'f list \<Rightarrow> 'f list \<Rightarrow> nat \<Rightarrow> 'f list
     \<Rightarrow> fault + ('f PhotoError \<times> 'f list)" where
  "PhotoError_run cfg ops this I0_ptr I0 I1 r_ptr r =
     bind_f (Impl_run cfg ops (impl this) I0_ptr I0 I1 r_ptr r) (\<lambda>r'. Inr (this, r'))"

subsection \<open>init\<close>

text \<open>
  \<^verbatim>\<open>std::vector::resize(n)\<close> keeps the first \<open>n\<close> elements and appends new ones; \<open>fill\<close>
  is the value of a new element (for an Eigen vector its content is not initialised, so
  the model takes it as an input).
\<close>

definition vector_resize :: "'a \<Rightarrow> nat \<Rightarrow> 'a list \<Rightarrow> 'a list" where
  "vector_resize fill n xs = take n xs @ replicate (n - length xs) fill"

definition resize :: "'f Vector4 \<Rightarrow> nat \<Rightarrow> 'f Impl \<Rightarrow> 'f Impl" where
  "resize uninit N s =
     s\<lparr>interp_coeffs := vector_resize uninit N (interp_coeffs s),
       inds := vector_resize 0 N (inds s)\<rparr>"

text \<open>
  \<^verbatim>\<open>PhotoError::Impl::init\<close>. \<^verbatim>\<open>projectPoints\<close> is declared in
  \<^verbatim>\<open>bpvo/project_points.h\<close>, which is not among the sources: it is the parameter
  \<open>projectPoints\<close>, which receives the three output buffers and returns them written.
  The result is the new state and the caller's validity vector.
\<close>

datatype 'f Matrix34 = Matrix34 "'f Vector4" "'f Vector4" "'f Vector4"

definition Impl_init ::
  "('f Matrix34 \<Rightarrow> 'f Vector4 list \<Rightarrow> int \<times> int \<Rightarrow> bool list \<times> int list \<times> 'f Vector4 list
      \<Rightarrow> bool list \<times> int list \<times> 'f Vector4 list)
   \<Rightarrow> 'f Vector4 \<Rightarrow> 'f Impl \<Rightarrow> 'f Matrix34 \<Rightarrow> 'f Vector4 list \<Rightarrow> bool list \<Rightarrow> int \<Rightarrow> int
   \<Rightarrow> 'f Impl \<times> bool list" where
  "Impl_init projectPoints uninit s P X valid rows cols =
     (let s1 = resize uninit (length X) s;
          valid1 = vector_resize False (length X) valid;
          s2 = s1\<lparr>valid_ptr := valid1, stride := cols\<rparr>
      in if X = [] then (s2, valid1)
         else (case projectPoints P X (rows, cols) (valid1, inds s2, interp_coeffs s2) of
                 (valid2, inds2, coeffs2) \<Rightarrow>
                   (s2\<lparr>valid_ptr := valid2, inds := inds2, interp_coeffs := coeffs2\<rparr>, valid2)))"

subsection \<open>Conditions on a call, and the values it writes\<close>

text \<open>
  The image elements one sample reads, from the base offset \<open>p\<close>: the four neighbours
  in \<^verbatim>\<open>load_data\<close>, two runs of four floats in \<^verbatim>\<open>load_data_simd\<close>.
\<close>

definition footprint :: "config \<Rightarrow> int \<Rightarrow> int \<Rightarrow> int list" where
  "footprint cfg strd p =
     (if WITH_SIMD cfg
      then [p, p + 1, p + 2, p + 3, p + strd, p + strd + 1, p + strd + 2, p + strd + 3]
      else [p, p + 1, p + strd, p + strd + 1])"

definition in_buffer :: "'a list \<Rightarrow> int \<Rightarrow> bool" where
  "in_buffer xs k \<longleftrightarrow> 0 \<le> k \<and> k < int (length xs)"

text \<open>
  \<open>call_ok\<close>: the state has the shape \<^verbatim>\<open>init\<close> leaves, the caller's buffers hold at least
  one element per point, and every valid point's reads of the image are inside it.
\<close>

definition call_ok :: "config \<Rightarrow> 'f Impl \<Rightarrow> 'f list \<Rightarrow> 'f list \<Rightarrow> 'f list \<Rightarrow> bool" where
  "call_ok cfg s I0 I1 r \<longleftrightarrow>
     (let n = length (interp_coeffs s) in
      length (inds s) = n \<and> length (valid_ptr s) = n \<and> n \<le> length I0 \<and> n \<le> length r \<and>
      list_all (\<lambda>i. valid_ptr s ! i \<longrightarrow>
                  list_all (in_buffer I1) (footprint cfg (stride s) (inds s ! i))) [0..<n])"

text \<open>
  The bilinear sample as the specification writes it,
  \<^verbatim>\<open>w00*I1[offset] + w10*I1[offset+1] + w01*I1[offset+stride] + w11*I1[offset+stride+1]\<close>,
  with the sum taken in pairs.
\<close>

fun sampled :: "'f arith \<Rightarrow> 'f Vector4 \<Rightarrow> 'f list \<Rightarrow> int \<Rightarrow> int \<Rightarrow> 'f" where
  "sampled ops (Vector4 w00 w10 w01 w11) I1 offset strd =
     fadd ops (fadd ops (fmul ops w00 (I1 ! nat offset))
                        (fmul ops w10 (I1 ! nat (offset + 1))))
              (fadd ops (fmul ops w01 (I1 ! nat (offset + strd)))
                        (fmul ops w11 (I1 ! nat (offset + strd + 1))))"

text \<open>
  For the proofs: \<open>pt_ok\<close> says that point \<open>i\<close> can be processed without a fault,
  \<open>resid\<close> is the residual written for it, \<open>written lo hi r\<close> is the buffer \<open>r\<close> with
  the residuals of the points \<open>lo, \<dots>, hi - 1\<close> written, and \<open>batch_end n i\<close> is the
  index at which the loop over groups of eight, started at \<open>i\<close>, stops.
\<close>

definition pt_ok :: "config \<Rightarrow> 'f arith \<Rightarrow> 'f Impl \<Rightarrow> 'f list \<Rightarrow> 'f list \<Rightarrow> nat \<Rightarrow> int \<Rightarrow> bool" where
  "pt_ok cfg ops s I0 I1 n i \<longleftrightarrow>
     (\<exists>v. operator_call cfg ops s I1 i = Inr v) \<and> 0 \<le> i \<and> i < int (length I0) \<and> i < int n"

definition resid :: "config \<Rightarrow> 'f arith \<Rightarrow> 'f Impl \<Rightarrow> 'f list \<Rightarrow> 'f list \<Rightarrow> int \<Rightarrow> 'f" where
  "resid cfg ops s I0 I1 i = fsub ops (projr (operator_call cfg ops s I1 i)) (I0 ! nat i)"

definition written ::
  "config \<Rightarrow> 'f arith \<Rightarrow> 'f Impl \<Rightarrow> 'f list \<Rightarrow> 'f list \<Rightarrow> int \<Rightarrow> int \<Rightarrow> 'f list \<Rightarrow> 'f list" where
  "written cfg ops s I0 I1 lo hi r =
     map (\<lambda>k. if lo \<le> int k \<and> int k < hi then resid cfg ops s I0 I1 (int k) else r ! k)
       [0..<length r]"

function batch_end :: "int \<Rightarrow> int \<Rightarrow> int" where
  "batch_end n i = (if i \<le> n - 8 then batch_end n (i + 8) else i)"
  by pat_completeness auto
termination
  by (relation "measure (\<lambda>(n, i). nat (n - i))") auto

declare batch_end.simps [simp del]

text \<open>
  For the safety of the reads of the image: \<open>I1_fault m\<close> says that \<open>m\<close> is a read
  outside the image, and \<open>neighbours_inside\<close> that the four neighbours of every valid
  point lie inside it.
\<close>

definition I1_fault :: "fault + 'a \<Rightarrow> bool" where
  "I1_fault m \<longleftrightarrow> (\<exists>k. m = Inl (OutOfBounds I1_buf k))"

definition neighbours_inside :: "config \<Rightarrow> 'f Impl \<Rightarrow> 'f list \<Rightarrow> bool" where
  "neighbours_inside cfg s I1 \<longleftrightarrow>
     (\<forall>i. in_buffer (valid_ptr s) i \<and> valid_ptr s ! nat i \<and> in_buffer (inds s) i \<longrightarrow>
          list_all (in_buffer I1) [inds s ! nat i, inds s ! nat i + 1,
                                   inds s ! nat i + stride s, inds s ! nat i + stride s + 1])"

subsection \<open>Concrete inputs\<close>

text \<open>
  The 4 by 4 image of the specification's scenarios, a state with one point at pixel
  (1.5, 1.5), and a state with nine points (one group of eight and one left over), two
  of them invalid.
\<close>

definition image4x4 :: "real list" where
  "image4x4 = [0, 1, 2, 3, 4, 5, 6, 7, 8, 9, 10, 11, 12, 13, 14, 15]"

definition impl1 :: "real Impl" where
  "impl1 = \<lparr>stride = 4, interp_coeffs = [Vector4 (1/4) (1/4) (1/4) (1/4)], inds = [5],
            valid_ptr = [True]\<rparr>"

definition impl9 :: "real Impl" where
  "impl9 = \<lparr>stride = 4,
            interp_coeffs = replicate 9 (Vector4 (1/4) (1/4) (1/4) (1/4)),
            inds = [0, 1, 2, 4, 5, 6, 8, 9, 10],
            valid_ptr = [True, False, True, True, True, False, True, True, True]\<rparr>"

definition scalar_cfg :: config where
  "scalar_cfg = \<lparr>WITH_SIMD = False, SSE4_1 = False\<rparr>"

definition simd_cfg :: config where
  "simd_cfg = \<lparr>WITH_SIMD = True, SSE4_1 = False\<rparr>"

definition impl_invalid :: "real Impl" where
  "impl_invalid = \<lparr>stride = 4, interp_coeffs = [Vector4 (1/2) (1/2) 0 0], inds = [3],
                   valid_ptr = [False]\<rparr>"

definition impl_corner :: "real Impl" where
  "impl_corner = \<lparr>stride = 4, interp_coeffs = [Vector4 (1/4) (1/4) (1/4) (1/4)],
                  inds = [2 * 4 + 2], valid_ptr = [True]\<rparr>"

subsection \<open>projectPoints\<close>

text \<open>
  \<^verbatim>\<open>projectPoints\<close> (\<^verbatim>\<open>bpvo/project_points.h\<close>) is called by \<^verbatim>\<open>init\<close> and is not among
  the sources; the definitions of this subsection model it from section 4.1 of the
  specification. A float is the real number it denotes, and every operation gives its
  exact result rounded by \<open>rnd\<close>, a parameter: the identity is exact arithmetic, and
  single precision is rounding to the nearest float.
\<close>

datatype 'f Vector3 = Vector3 'f 'f 'f

text \<open>
  Modelled from the spec: one component of \<open>p = P * X[i]\<close>, a row of \<open>P\<close> times the
  point. The specification does not fix the order of the sum; it is taken from left to
  right.
\<close>

fun fl_dot4 :: "(real \<Rightarrow> real) \<Rightarrow> real Vector4 \<Rightarrow> real Vector4 \<Rightarrow> real" where
  "fl_dot4 rnd (Vector4 a0 a1 a2 a3) (Vector4 b0 b1 b2 b3) =
     rnd (rnd (rnd (rnd (a0 * b0) + rnd (a1 * b1)) + rnd (a2 * b2)) + rnd (a3 * b3))"

text \<open>Modelled from the spec: the homogeneous image coordinate \<open>p = P * X[i]\<close>.\<close>

fun homogeneous :: "(real \<Rightarrow> real) \<Rightarrow> real Matrix34 \<Rightarrow> real Vector4 \<Rightarrow> real Vector3" where
  "homogeneous rnd (Matrix34 row0 row1 row2) Xi =
     Vector3 (fl_dot4 rnd row0 Xi) (fl_dot4 rnd row1 Xi) (fl_dot4 rnd row2 Xi)"

text \<open>Modelled from the spec: the homogeneous scale component of \<open>p\<close>.\<close>

definition scale_spec :: "(real \<Rightarrow> real) \<Rightarrow> real Matrix34 \<Rightarrow> real Vector4 \<Rightarrow> real" where
  "scale_spec rnd P Xi = (case homogeneous rnd P Xi of Vector3 p0 p1 p2 \<Rightarrow> p2)"

text \<open>
  Modelled from the spec: the pixel coordinates \<open>(x_i, y_i)\<close>, \<open>p\<close> divided through by
  its scale component (meaningful when the scale is not zero).
\<close>

definition pixel_spec :: "(real \<Rightarrow> real) \<Rightarrow> real Matrix34 \<Rightarrow> real Vector4 \<Rightarrow> real \<times> real" where
  "pixel_spec rnd P Xi =
     (case homogeneous rnd P Xi of Vector3 p0 p1 p2 \<Rightarrow> (rnd (p0 / p2), rnd (p1 / p2)))"

text \<open>
  Modelled from the spec: the validity rule \<open>(0 \<le> xi < cols-1) AND (0 \<le> yi < rows-1)\<close>
  on the floors \<open>(xi, yi)\<close> of the pixel coordinates.
\<close>

definition margin_rule :: "int \<Rightarrow> int \<Rightarrow> real \<Rightarrow> real \<Rightarrow> bool" where
  "margin_rule rows cols x y \<longleftrightarrow>
     0 \<le> \<lfloor>x\<rfloor> \<and> \<lfloor>x\<rfloor> < cols - 1 \<and> 0 \<le> \<lfloor>y\<rfloor> \<and> \<lfloor>y\<rfloor> < rows - 1"

text \<open>
  Modelled from the spec: the four bilinear weights \<open>w00 = (1-dx)(1-dy)\<close>,
  \<open>w10 = dx(1-dy)\<close>, \<open>w01 = (1-dx)dy\<close>, \<open>w11 = dx*dy\<close>, each operation rounded.
\<close>

definition weights_spec :: "(real \<Rightarrow> real) \<Rightarrow> real \<Rightarrow> real \<Rightarrow> real Vector4" where
  "weights_spec rnd dx dy =
     Vector4 (rnd (rnd (1 - dx) * rnd (1 - dy))) (rnd (dx * rnd (1 - dy)))
             (rnd (rnd (1 - dx) * dy)) (rnd (dx * dy))"

text \<open>
  Modelled from the spec: one point. A point of scale zero is invalid; otherwise the
  point is valid iff the floors of its pixel coordinates satisfy the validity rule; for
  a valid point \<open>dx = x - xi\<close>, \<open>dy = y - yi\<close>, the weights are as above and the offset
  is \<open>yi * stride + xi\<close> with \<open>stride = cols\<close>; for an invalid point weights and offset
  are left as they were (\<open>old\<close> is the point's slot of the three output buffers).
\<close>

definition projectPoint_spec ::
  "(real \<Rightarrow> real) \<Rightarrow> real Matrix34 \<Rightarrow> int \<times> int \<Rightarrow> real Vector4 \<Rightarrow> bool \<times> int \<times> real Vector4
     \<Rightarrow> bool \<times> int \<times> real Vector4" where
  "projectPoint_spec rnd P sz Xi old =
     (case sz of (rows, cols) \<Rightarrow>
      case pixel_spec rnd P Xi of (x, y) \<Rightarrow>
        if scale_spec rnd P Xi \<noteq> 0 \<and> margin_rule rows cols x y then
          (let xi = \<lfloor>x\<rfloor>; yi = \<lfloor>y\<rfloor>;
               dx = rnd (x - of_int xi); dy = rnd (y - of_int yi)
           in (True, yi * cols + xi, weights_spec rnd dx dy))
        else (False, snd old))"

text \<open>
  Modelled from the spec: the whole batch, one point after the other, over the three
  output buffers.
\<close>

definition projectPoints_spec ::
  "(real \<Rightarrow> real) \<Rightarrow> real Matrix34 \<Rightarrow> real Vector4 list \<Rightarrow> int \<times> int
     \<Rightarrow> bool list \<times> int list \<times> real Vector4 list
     \<Rightarrow> bool list \<times> int list \<times> real Vector4 list" where
  "projectPoints_spec rnd P X sz bufs =
     (case bufs of (valid, offsets, coeffs) \<Rightarrow>
        let out = map2 (projectPoint_spec rnd P sz) X (zip valid (zip offsets coeffs))
        in (map fst out, map (\<lambda>t. fst (snd t)) out, map (\<lambda>t. snd (snd t)) out))"

text \<open>
  What the bound on the sum of the weights asks of the rounding: on \<open>[0, 1]\<close> it stays
  in \<open>[0, 1]\<close> and moves a number by at most \<open>e\<close>. Rounding to the nearest
  single-precision float does so with \<open>e = 2^-25\<close>, half the largest gap between floats
  in \<open>[0, 1]\<close>, since 0 and 1 are floats.
\<close>

definition unit_rounding :: "(real \<Rightarrow> real) \<Rightarrow> real \<Rightarrow> bool" where
  "unit_rounding rnd e \<longleftrightarrow>
     (\<forall>t. 0 \<le> t \<and> t \<le> 1 \<longrightarrow> 0 \<le> rnd t \<and> rnd t \<le> 1 \<and> \<bar>rnd t - t\<bar> \<le> e)"

text \<open>
  A concrete rounding for the examples: to the nearest multiple of \<open>2^-24\<close> (that is,
  of \<open>1/16777216\<close>), which is what single precision does between 1/2 and 1.
\<close>

definition rnd24 :: "real \<Rightarrow> real" where
  "rnd24 t = of_int \<lfloor>t * 16777216 + 1 / 2\<rfloor> / 16777216"

definition P_id :: "real Matrix34" where
  "P_id = Matrix34 (Vector4 1 0 0 0) (Vector4 0 1 0 0) (Vector4 0 0 1 0)"

text \<open>
  Four points for the examples: one left of the image, one in the excluded last column,
  one inside, and one that projects to the last column exactly.
\<close>

definition points4 :: "real Vector4 list" where
  "points4 = [Vector4 (-1/2) (1/2) 1 1, Vector4 (7/2) 0 1 1, Vector4 (5/2) (5/2) 1 1,
              Vector4 183 0 61 1]"

definition impl0 :: "real Impl" where
  "impl0 = \<lparr>stride = 0, interp_coeffs = [], inds = [], valid_ptr = []\<rparr>"

section \<open>Properties of the loops\<close>

lemma bind_f_Inr_iff: "bind_f m f = Inr y \<longleftrightarrow> (\<exists>x. m = Inr x \<and> f x = Inr y)"
  by (cases m) (simp_all add: bind_f_def)

lemma bind_f_Inr [simp]: "bind_f (Inr x) f = f x"
  by (simp add: bind_f_def)

lemma bind_f_Inl [simp]: "bind_f (Inl e) f = Inl e"
  by (simp add: bind_f_def)

lemma rd_Inr_iff: "rd b xs k = Inr v \<longleftrightarrow> 0 \<le> k \<and> k < int (length xs) \<and> v = xs ! nat k"
  by (auto simp: rd_def)

lemma wr_Inr_iff: "wr b xs k v = Inr ys \<longleftrightarrow> 0 \<le> k \<and> k < int (length xs) \<and> ys = xs[nat k := v]"
  by (auto simp: wr_def)

lemma length_written [simp]: "length (written cfg ops s I0 I1 lo hi r) = length r"
  by (simp add: written_def)

lemma written_empty: "hi \<le> lo \<Longrightarrow> written cfg ops s I0 I1 lo hi r = r"
  by (rule nth_equalityI) (auto simp: written_def)

lemma written_nth:
  "k < length r \<Longrightarrow> written cfg ops s I0 I1 lo hi r ! k =
     (if lo \<le> int k \<and> int k < hi then resid cfg ops s I0 I1 (int k) else r ! k)"
  by (simp add: written_def)

lemma written_step:
  assumes "0 \<le> i" "i < int (length r)" "lo \<le> i"
  shows "(written cfg ops s I0 I1 lo i r)[nat i := resid cfg ops s I0 I1 i]
           = written cfg ops s I0 I1 lo (i + 1) r"
proof (rule nth_equalityI)
  show "length ((written cfg ops s I0 I1 lo i r)[nat i := resid cfg ops s I0 I1 i])
          = length (written cfg ops s I0 I1 lo (i + 1) r)"
    by simp
next
  fix k assume "k < length ((written cfg ops s I0 I1 lo i r)[nat i := resid cfg ops s I0 I1 i])"
  then have k: "k < length r" by simp
  show "(written cfg ops s I0 I1 lo i r)[nat i := resid cfg ops s I0 I1 i] ! k
          = written cfg ops s I0 I1 lo (i + 1) r ! k"
  proof (cases "k = nat i")
    case True
    with assms k show ?thesis by (simp add: written_nth)
  next
    case False
    with assms have "int k \<noteq> i" by auto
    with False k show ?thesis by (simp add: written_nth)
  qed
qed

lemma written_written:
  assumes "lo \<le> mid" "mid \<le> hi"
  shows "written cfg ops s I0 I1 mid hi (written cfg ops s I0 I1 lo mid r)
           = written cfg ops s I0 I1 lo hi r"
proof (rule nth_equalityI)
  show "length (written cfg ops s I0 I1 mid hi (written cfg ops s I0 I1 lo mid r))
          = length (written cfg ops s I0 I1 lo hi r)"
    by simp
next
  fix k assume "k < length (written cfg ops s I0 I1 mid hi (written cfg ops s I0 I1 lo mid r))"
  then have k: "k < length r" by simp
  with assms show "written cfg ops s I0 I1 mid hi (written cfg ops s I0 I1 lo mid r) ! k
          = written cfg ops s I0 I1 lo hi r ! k"
    by (simp add: written_nth)
qed

lemma store1_iff:
  "store1 cfg ops s I0 I1 i r = Inr r' \<longleftrightarrow>
     pt_ok cfg ops s I0 I1 (length r) i \<and> r' = r[nat i := resid cfg ops s I0 I1 i]"
  unfolding store1_def pt_ok_def resid_def bind_f_Inr_iff rd_Inr_iff wr_Inr_iff
  by fastforce

lemma written_upd_first:
  assumes "0 \<le> i" "i < int (length r)" "i < hi"
  shows "written cfg ops s I0 I1 (i + 1) hi (r[nat i := resid cfg ops s I0 I1 i])
           = written cfg ops s I0 I1 i hi r"
proof -
  have "r[nat i := resid cfg ops s I0 I1 i] = written cfg ops s I0 I1 i (i + 1) r"
    using written_step [of i r i cfg ops s I0 I1] assms by (simp add: written_empty)
  then show ?thesis
    using written_written [of i "i + 1" hi cfg ops s I0 I1 r] assms by simp
qed

lemma loop_tail_iff:
  "0 \<le> i \<Longrightarrow>
   loop_tail cfg ops s I0 I1 n i r = Inr r' \<longleftrightarrow>
     (\<forall>j. i \<le> j \<and> j < n \<longrightarrow> pt_ok cfg ops s I0 I1 (length r) j) \<and>
     r' = written cfg ops s I0 I1 i n r"
proof (induction cfg ops s I0 I1 n i r rule: loop_tail.induct)
  case (1 cfg ops s I0 I1 n i r)
  show ?case
  proof (cases "i < n")
    case False
    then show ?thesis
      by (subst loop_tail.simps) (auto simp: written_empty)
  next
    case True
    show ?thesis
    proof (cases "store1 cfg ops s I0 I1 i r")
      case (Inl e)
      then have "\<not> pt_ok cfg ops s I0 I1 (length r) i"
        using store1_iff [of cfg ops s I0 I1 i r "r[nat i := resid cfg ops s I0 I1 i]"] by simp
      with True Inl show ?thesis
        by (subst loop_tail.simps) auto
    next
      case (Inr r1)
      then have ok: "pt_ok cfg ops s I0 I1 (length r) i"
        and r1: "r1 = r[nat i := resid cfg ops s I0 I1 i]"
        using store1_iff [of cfg ops s I0 I1 i r r1] by simp_all
      from ok have bnd: "i < int (length r)" by (simp add: pt_ok_def)
      have split: "(\<forall>j. i \<le> j \<and> j < n \<longrightarrow> pt_ok cfg ops s I0 I1 (length r) j) \<longleftrightarrow>
                   (\<forall>j. i + 1 \<le> j \<and> j < n \<longrightarrow> pt_ok cfg ops s I0 I1 (length r) j)"
      proof
        assume "\<forall>j. i \<le> j \<and> j < n \<longrightarrow> pt_ok cfg ops s I0 I1 (length r) j"
        then show "\<forall>j. i + 1 \<le> j \<and> j < n \<longrightarrow> pt_ok cfg ops s I0 I1 (length r) j" by simp
      next
        assume h: "\<forall>j. i + 1 \<le> j \<and> j < n \<longrightarrow> pt_ok cfg ops s I0 I1 (length r) j"
        show "\<forall>j. i \<le> j \<and> j < n \<longrightarrow> pt_ok cfg ops s I0 I1 (length r) j"
        proof (intro allI impI)
          fix j assume "i \<le> j \<and> j < n"
          then have "j = i \<or> (i + 1 \<le> j \<and> j < n)" by linarith
          with h ok show "pt_ok cfg ops s I0 I1 (length r) j" by blast
        qed
      qed
      have "loop_tail cfg ops s I0 I1 n i r = loop_tail cfg ops s I0 I1 n (i + 1) r1"
        using True Inr by (subst loop_tail.simps) simp
      also have "\<dots> = Inr r' \<longleftrightarrow>
          (\<forall>j. i + 1 \<le> j \<and> j < n \<longrightarrow> pt_ok cfg ops s I0 I1 (length r1) j) \<and>
          r' = written cfg ops s I0 I1 (i + 1) n r1"
        using "1.IH" [OF True Inr] "1.prems" by simp
      finally show ?thesis
        using split r1 written_upd_first [of i r n cfg ops s I0 I1] "1.prems" bnd True
        by simp
    qed
  qed
qed

lemma mm_loadu_ps_iff:
  "mm_loadu_ps b xs k = Inr v \<longleftrightarrow>
     0 \<le> k \<and> k + 3 < int (length xs) \<and>
     v = Vector4 (xs ! nat k) (xs ! nat (k + 1)) (xs ! nat (k + 2)) (xs ! nat (k + 3))"
  unfolding mm_loadu_ps_def bind_f_Inr_iff rd_Inr_iff by auto

lemma mm_storeu_ps_iff:
  "mm_storeu_ps b xs k (Vector4 e0 e1 e2 e3) = Inr ys \<longleftrightarrow>
     0 \<le> k \<and> k + 3 < int (length xs) \<and>
     ys = xs[nat k := e0, nat (k + 1) := e1, nat (k + 2) := e2, nat (k + 3) := e3]"
  unfolding mm_storeu_ps.simps bind_f_Inr_iff wr_Inr_iff by auto

lemma setr_samples_iff:
  "setr_samples cfg ops s I1 i = Inr v \<longleftrightarrow>
     (\<exists>w. operator_call cfg ops s I1 i = Inr w) \<and>
     (\<exists>w. operator_call cfg ops s I1 (i + 1) = Inr w) \<and>
     (\<exists>w. operator_call cfg ops s I1 (i + 2) = Inr w) \<and>
     (\<exists>w. operator_call cfg ops s I1 (i + 3) = Inr w) \<and>
     v = Vector4 (projr (operator_call cfg ops s I1 i))
                 (projr (operator_call cfg ops s I1 (i + 1)))
                 (projr (operator_call cfg ops s I1 (i + 2)))
                 (projr (operator_call cfg ops s I1 (i + 3)))"
  unfolding setr_samples_def bind_f_Inr_iff mm_setr_ps_def by auto

lemma all_four:
  "(\<forall>j::int. i \<le> j \<and> j < i + 4 \<longrightarrow> P j) \<longleftrightarrow> P i \<and> P (i + 1) \<and> P (i + 2) \<and> P (i + 3)"
proof
  assume h: "\<forall>j. i \<le> j \<and> j < i + 4 \<longrightarrow> P j"
  show "P i \<and> P (i + 1) \<and> P (i + 2) \<and> P (i + 3)"
    using h by simp
next
  assume h: "P i \<and> P (i + 1) \<and> P (i + 2) \<and> P (i + 3)"
  show "\<forall>j. i \<le> j \<and> j < i + 4 \<longrightarrow> P j"
  proof (intro allI impI)
    fix j assume "i \<le> j \<and> j < i + 4"
    then have "j = i \<or> j = i + 1 \<or> j = i + 2 \<or> j = i + 3" by linarith
    with h show "P j" by blast
  qed
qed

lemma written_four:
  assumes "0 \<le> i" "i + 3 < int (length r)"
  shows "r[nat i := resid cfg ops s I0 I1 i, nat (i + 1) := resid cfg ops s I0 I1 (i + 1),
           nat (i + 2) := resid cfg ops s I0 I1 (i + 2), nat (i + 3) := resid cfg ops s I0 I1 (i + 3)]
         = written cfg ops s I0 I1 i (i + 4) r"
proof -
  have a: "r[nat i := resid cfg ops s I0 I1 i] = written cfg ops s I0 I1 i (i + 1) r"
    using written_step [of i r i cfg ops s I0 I1] assms by (simp add: written_empty)
  have b: "(written cfg ops s I0 I1 i (i + 1) r)[nat (i + 1) := resid cfg ops s I0 I1 (i + 1)]
             = written cfg ops s I0 I1 i (i + 2) r"
    using written_step [of "i + 1" r i cfg ops s I0 I1] assms by (simp add: algebra_simps)
  have c: "(written cfg ops s I0 I1 i (i + 2) r)[nat (i + 2) := resid cfg ops s I0 I1 (i + 2)]
             = written cfg ops s I0 I1 i (i + 3) r"
    using written_step [of "i + 2" r i cfg ops s I0 I1] assms by (simp add: algebra_simps)
  have d: "(written cfg ops s I0 I1 i (i + 3) r)[nat (i + 3) := resid cfg ops s I0 I1 (i + 3)]
             = written cfg ops s I0 I1 i (i + 4) r"
    using written_step [of "i + 3" r i cfg ops s I0 I1] assms by (simp add: algebra_simps)
  show ?thesis by (simp only: a b c d)
qed

lemma store4_unaligned_iff:
  "store4_unaligned cfg ops s I0 I1 i r = Inr r' \<longleftrightarrow>
     (\<forall>j. i \<le> j \<and> j < i + 4 \<longrightarrow> pt_ok cfg ops s I0 I1 (length r) j) \<and>
     r' = written cfg ops s I0 I1 i (i + 4) r"
proof -
  have "store4_unaligned cfg ops s I0 I1 i r = Inr r' \<longleftrightarrow>
     (\<forall>j. i \<le> j \<and> j < i + 4 \<longrightarrow> pt_ok cfg ops s I0 I1 (length r) j) \<and>
     r' = r[nat i := resid cfg ops s I0 I1 i, nat (i + 1) := resid cfg ops s I0 I1 (i + 1),
           nat (i + 2) := resid cfg ops s I0 I1 (i + 2), nat (i + 3) := resid cfg ops s I0 I1 (i + 3)]"
    unfolding store4_unaligned_def bind_f_Inr_iff setr_samples_iff mm_loadu_ps_iff all_four
      pt_ok_def resid_def
    by (auto simp: mm_storeu_ps_iff simp del: mm_storeu_ps.simps)
  also have "\<dots> \<longleftrightarrow> (\<forall>j. i \<le> j \<and> j < i + 4 \<longrightarrow> pt_ok cfg ops s I0 I1 (length r) j) \<and>
     r' = written cfg ops s I0 I1 i (i + 4) r"
    using written_four [of i r cfg ops s I0 I1] by (auto simp: all_four pt_ok_def)
  finally show ?thesis .
qed

lemma batch_end_step: "i \<le> n - 8 \<Longrightarrow> batch_end n (i + 8) = batch_end n i"
  by (subst (2) batch_end.simps) simp

lemma batch_end_stop: "\<not> i \<le> n - 8 \<Longrightarrow> batch_end n i = i"
  by (subst batch_end.simps) simp

lemma batch_end_ge: "i \<le> batch_end n i"
proof (induction n i rule: batch_end.induct)
  case (1 n i)
  show ?case
  proof (cases "i \<le> n - 8")
    case True
    with "1.IH" show ?thesis by (simp add: batch_end_step [symmetric])
  next
    case False
    then show ?thesis by (simp add: batch_end_stop)
  qed
qed

lemma batch_end_ge8: "i \<le> n - 8 \<Longrightarrow> i + 8 \<le> batch_end n i"
  using batch_end_ge [of "i + 8" n] by (simp add: batch_end_step)

lemma batch_end_le: "i \<le> n \<Longrightarrow> batch_end n i \<le> n"
proof (induction n i rule: batch_end.induct)
  case (1 n i)
  show ?case
  proof (cases "i \<le> n - 8")
    case True
    with "1.IH" show ?thesis by (simp add: batch_end_step [symmetric])
  next
    case False
    with "1.prems" show ?thesis by (simp add: batch_end_stop)
  qed
qed

lemma batch8_iff:
  "(\<exists>r1. store4_unaligned cfg ops s I0 I1 i r = Inr r1 \<and>
         store4_unaligned cfg ops s I0 I1 (i + 4) r1 = Inr r2) \<longleftrightarrow>
     (\<forall>j. i \<le> j \<and> j < i + 8 \<longrightarrow> pt_ok cfg ops s I0 I1 (length r) j) \<and>
     r2 = written cfg ops s I0 I1 i (i + 8) r"
proof -
  have rng: "(\<forall>j. i \<le> j \<and> j < i + 8 \<longrightarrow> pt_ok cfg ops s I0 I1 (length r) j) \<longleftrightarrow>
             (\<forall>j. i \<le> j \<and> j < i + 4 \<longrightarrow> pt_ok cfg ops s I0 I1 (length r) j) \<and>
             (\<forall>j. i + 4 \<le> j \<and> j < i + 4 + 4 \<longrightarrow> pt_ok cfg ops s I0 I1 (length r) j)"
  proof
    assume h: "\<forall>j. i \<le> j \<and> j < i + 8 \<longrightarrow> pt_ok cfg ops s I0 I1 (length r) j"
    show "(\<forall>j. i \<le> j \<and> j < i + 4 \<longrightarrow> pt_ok cfg ops s I0 I1 (length r) j) \<and>
          (\<forall>j. i + 4 \<le> j \<and> j < i + 4 + 4 \<longrightarrow> pt_ok cfg ops s I0 I1 (length r) j)"
      using h by simp
  next
    assume h: "(\<forall>j. i \<le> j \<and> j < i + 4 \<longrightarrow> pt_ok cfg ops s I0 I1 (length r) j) \<and>
          (\<forall>j. i + 4 \<le> j \<and> j < i + 4 + 4 \<longrightarrow> pt_ok cfg ops s I0 I1 (length r) j)"
    show "\<forall>j. i \<le> j \<and> j < i + 8 \<longrightarrow> pt_ok cfg ops s I0 I1 (length r) j"
    proof (intro allI impI)
      fix j assume "i \<le> j \<and> j < i + 8"
      then have "(i \<le> j \<and> j < i + 4) \<or> (i + 4 \<le> j \<and> j < i + 4 + 4)" by linarith
      with h show "pt_ok cfg ops s I0 I1 (length r) j" by blast
    qed
  qed
  have ww: "written cfg ops s I0 I1 (i + 4) (i + 4 + 4) (written cfg ops s I0 I1 i (i + 4) r)
              = written cfg ops s I0 I1 i (i + 8) r"
    using written_written [of i "i + 4" "i + 8" cfg ops s I0 I1 r] by (simp add: algebra_simps)
  show ?thesis
    unfolding store4_unaligned_iff rng using ww by auto
qed

lemma loop_unaligned_iff:
  "loop_unaligned cfg ops s I0 I1 n i r = Inr (i', r') \<longleftrightarrow>
     i' = batch_end n i \<and>
     (\<forall>j. i \<le> j \<and> j < batch_end n i \<longrightarrow> pt_ok cfg ops s I0 I1 (length r) j) \<and>
     r' = written cfg ops s I0 I1 i (batch_end n i) r"
proof (induction cfg ops s I0 I1 n i r rule: loop_unaligned.induct)
  case (1 cfg ops s I0 I1 n i r)
  show ?case
  proof (cases "i \<le> n - 8")
    case False
    then show ?thesis
      by (subst loop_unaligned.simps) (auto simp: batch_end_stop written_empty)
  next
    case True
    let ?e = "batch_end n i"
    have e8: "i + 8 \<le> ?e" using True by (rule batch_end_ge8)
    have unf: "loop_unaligned cfg ops s I0 I1 n i r = Inr (i', r') \<longleftrightarrow>
        (\<exists>r1 r2. store4_unaligned cfg ops s I0 I1 i r = Inr r1 \<and>
                 store4_unaligned cfg ops s I0 I1 (i + 4) r1 = Inr r2 \<and>
                 loop_unaligned cfg ops s I0 I1 n (i + 8) r2 = Inr (i', r'))"
      using True by (subst loop_unaligned.simps) (auto split: sum.splits)
    have rng: "(\<forall>j. i \<le> j \<and> j < ?e \<longrightarrow> pt_ok cfg ops s I0 I1 (length r) j) \<longleftrightarrow>
               (\<forall>j. i \<le> j \<and> j < i + 8 \<longrightarrow> pt_ok cfg ops s I0 I1 (length r) j) \<and>
               (\<forall>j. i + 8 \<le> j \<and> j < ?e \<longrightarrow> pt_ok cfg ops s I0 I1 (length r) j)"
    proof
      assume h: "\<forall>j. i \<le> j \<and> j < ?e \<longrightarrow> pt_ok cfg ops s I0 I1 (length r) j"
      show "(\<forall>j. i \<le> j \<and> j < i + 8 \<longrightarrow> pt_ok cfg ops s I0 I1 (length r) j) \<and>
            (\<forall>j. i + 8 \<le> j \<and> j < ?e \<longrightarrow> pt_ok cfg ops s I0 I1 (length r) j)"
        using h e8 by simp
    next
      assume h: "(\<forall>j. i \<le> j \<and> j < i + 8 \<longrightarrow> pt_ok cfg ops s I0 I1 (length r) j) \<and>
            (\<forall>j. i + 8 \<le> j \<and> j < ?e \<longrightarrow> pt_ok cfg ops s I0 I1 (length r) j)"
      show "\<forall>j. i \<le> j \<and> j < ?e \<longrightarrow> pt_ok cfg ops s I0 I1 (length r) j"
      proof (intro allI impI)
        fix j assume "i \<le> j \<and> j < ?e"
        then have "(i \<le> j \<and> j < i + 8) \<or> (i + 8 \<le> j \<and> j < ?e)" by linarith
        with h show "pt_ok cfg ops s I0 I1 (length r) j" by blast
      qed
    qed
    show ?thesis
    proof
      assume "loop_unaligned cfg ops s I0 I1 n i r = Inr (i', r')"
      then obtain r1 r2 where
        a: "store4_unaligned cfg ops s I0 I1 i r = Inr r1" and
        b: "store4_unaligned cfg ops s I0 I1 (i + 4) r1 = Inr r2" and
        c: "loop_unaligned cfg ops s I0 I1 n (i + 8) r2 = Inr (i', r')"
        using unf by blast
      from a b have ok8: "\<forall>j. i \<le> j \<and> j < i + 8 \<longrightarrow> pt_ok cfg ops s I0 I1 (length r) j"
        and r2: "r2 = written cfg ops s I0 I1 i (i + 8) r"
        using batch8_iff [of cfg ops s I0 I1 i r r2] by blast+
      from c "1.IH" [OF True a b] have
        i': "i' = batch_end n (i + 8)" and
        ok: "\<forall>j. i + 8 \<le> j \<and> j < batch_end n (i + 8) \<longrightarrow> pt_ok cfg ops s I0 I1 (length r2) j" and
        r': "r' = written cfg ops s I0 I1 (i + 8) (batch_end n (i + 8)) r2"
        by blast+
      have "r' = written cfg ops s I0 I1 i ?e r"
        using r' r2 written_written [of i "i + 8" ?e cfg ops s I0 I1 r] e8
        by (simp add: batch_end_step [OF True])
      moreover have "\<forall>j. i \<le> j \<and> j < ?e \<longrightarrow> pt_ok cfg ops s I0 I1 (length r) j"
        using rng ok8 ok r2 by (simp add: batch_end_step [OF True])
      ultimately show "i' = ?e \<and>
          (\<forall>j. i \<le> j \<and> j < ?e \<longrightarrow> pt_ok cfg ops s I0 I1 (length r) j) \<and>
          r' = written cfg ops s I0 I1 i ?e r"
        using i' by (simp add: batch_end_step [OF True])
    next
      assume rhs: "i' = ?e \<and>
          (\<forall>j. i \<le> j \<and> j < ?e \<longrightarrow> pt_ok cfg ops s I0 I1 (length r) j) \<and>
          r' = written cfg ops s I0 I1 i ?e r"
      then have ok8: "\<forall>j. i \<le> j \<and> j < i + 8 \<longrightarrow> pt_ok cfg ops s I0 I1 (length r) j"
        and ok: "\<forall>j. i + 8 \<le> j \<and> j < ?e \<longrightarrow> pt_ok cfg ops s I0 I1 (length r) j"
        using rng by blast+
      define r2 where "r2 = written cfg ops s I0 I1 i (i + 8) r"
      then obtain r1 where
        a: "store4_unaligned cfg ops s I0 I1 i r = Inr r1" and
        b: "store4_unaligned cfg ops s I0 I1 (i + 4) r1 = Inr r2"
        using batch8_iff [of cfg ops s I0 I1 i r r2] ok8 by blast
      have "written cfg ops s I0 I1 (i + 8) ?e r2 = written cfg ops s I0 I1 i ?e r"
        unfolding r2_def using written_written [of i "i + 8" ?e cfg ops s I0 I1 r] e8 by simp
      then have "loop_unaligned cfg ops s I0 I1 n (i + 8) r2 = Inr (i', r')"
        using "1.IH" [OF True a b] rhs ok
        by (simp add: batch_end_step [OF True] r2_def)
      with a b show "loop_unaligned cfg ops s I0 I1 n i r = Inr (i', r')"
        using unf by blast
    qed
  qed
qed

lemma elem_addr_aligned:
  assumes "isAligned16 base" "i mod 4 = 0"
  shows "elem_addr base i mod 16 = 0"
proof -
  from assms(2) obtain q where q: "i = 4 * q" by (auto simp: mod_eq_0_iff_dvd)
  from assms(1) obtain b where b: "int base = 16 * b"
    unfolding isAligned16_def by (metis dvd_def int_dvd_int_iff mod_eq_0_iff_dvd of_nat_numeral)
  show ?thesis unfolding elem_addr_def q b by simp
qed

lemma store4_aligned_eq:
  assumes "isAligned16 r_ptr" "isAligned16 I0_ptr" "i mod 4 = 0"
  shows "store4_aligned cfg ops s I0_ptr I0 I1 r_ptr i r = store4_unaligned cfg ops s I0 I1 i r"
  unfolding store4_aligned_def store4_unaligned_def mm_load_ps_def mm_store_ps_def
  using elem_addr_aligned [OF assms(1,3)] elem_addr_aligned [OF assms(2,3)] by simp

lemma loop_aligned_eq:
  "isAligned16 r_ptr \<Longrightarrow> isAligned16 I0_ptr \<Longrightarrow> i mod 4 = 0 \<Longrightarrow>
   loop_aligned cfg ops s I0_ptr I0 I1 r_ptr n i r = loop_unaligned cfg ops s I0 I1 n i r"
proof (induction cfg ops s I0_ptr I0 I1 r_ptr n i r rule: loop_aligned.induct)
  case (1 cfg ops s I0_ptr I0 I1 r_ptr n i r)
  have m4: "(i + 4) mod 4 = 0" and m8: "(i + 8) mod 4 = 0"
    using "1.prems"(3) by presburger+
  have a: "store4_aligned cfg ops s I0_ptr I0 I1 r_ptr i r' = store4_unaligned cfg ops s I0 I1 i r'" for r'
    using "1.prems" by (simp add: store4_aligned_eq)
  have b: "store4_aligned cfg ops s I0_ptr I0 I1 r_ptr (i + 4) r' = store4_unaligned cfg ops s I0 I1 (i + 4) r'" for r'
    using "1.prems" m4 by (simp add: store4_aligned_eq)
  show ?case
  proof (cases "i \<le> n - 8")
    case False
    then show ?thesis
      by (subst loop_aligned.simps, subst loop_unaligned.simps) simp
  next
    case True
    show ?thesis
    proof (cases "store4_unaligned cfg ops s I0 I1 i r")
      case (Inl e)
      then show ?thesis
        using True a by (subst loop_aligned.simps, subst loop_unaligned.simps) simp
    next
      case r1: (Inr r1)
      show ?thesis
      proof (cases "store4_unaligned cfg ops s I0 I1 (i + 4) r1")
        case (Inl e)
        then show ?thesis
          using True a b r1 by (subst loop_aligned.simps, subst loop_unaligned.simps) simp
      next
        case r2: (Inr r2)
        have "loop_aligned cfg ops s I0_ptr I0 I1 r_ptr n (i + 8) r2
                = loop_unaligned cfg ops s I0 I1 n (i + 8) r2"
          using "1.IH" [OF True, of r1 r2] a b r1 r2 "1.prems" m8 by simp
        then show ?thesis
          using True a b r1 r2 by (subst loop_aligned.simps, subst loop_unaligned.simps) simp
      qed
    qed
  qed
qed

lemma Impl_run_unaligned:
  "Impl_run cfg ops s I0_ptr I0 I1 r_ptr r =
     (let num_points = int (length (interp_coeffs s)) in
      if num_points = 0 then Inr r
      else bind_f (loop_unaligned cfg ops s I0 I1 num_points 0 r) (\<lambda>(i, r1).
             loop_tail cfg ops s I0 I1 num_points i r1))"
  unfolding Impl_run_def by (simp add: loop_aligned_eq Let_def)

lemma Impl_run_iff:
  "Impl_run cfg ops s I0_ptr I0 I1 r_ptr r = Inr r' \<longleftrightarrow>
     (\<forall>j. 0 \<le> j \<and> j < int (length (interp_coeffs s)) \<longrightarrow> pt_ok cfg ops s I0 I1 (length r) j) \<and>
     r' = written cfg ops s I0 I1 0 (int (length (interp_coeffs s))) r"
proof (cases "interp_coeffs s = []")
  case True
  then show ?thesis
    by (auto simp: Impl_run_unaligned written_empty)
next
  case False
  let ?n = "int (length (interp_coeffs s))"
  let ?e = "batch_end ?n 0"
  have e0: "0 \<le> ?e" by (rule batch_end_ge)
  have en: "?e \<le> ?n" by (rule batch_end_le) simp
  have rng: "(\<forall>j. 0 \<le> j \<and> j < ?n \<longrightarrow> pt_ok cfg ops s I0 I1 (length r) j) \<longleftrightarrow>
             (\<forall>j. 0 \<le> j \<and> j < ?e \<longrightarrow> pt_ok cfg ops s I0 I1 (length r) j) \<and>
             (\<forall>j. ?e \<le> j \<and> j < ?n \<longrightarrow> pt_ok cfg ops s I0 I1 (length r) j)"
  proof
    assume h: "\<forall>j. 0 \<le> j \<and> j < ?n \<longrightarrow> pt_ok cfg ops s I0 I1 (length r) j"
    show "(\<forall>j. 0 \<le> j \<and> j < ?e \<longrightarrow> pt_ok cfg ops s I0 I1 (length r) j) \<and>
          (\<forall>j. ?e \<le> j \<and> j < ?n \<longrightarrow> pt_ok cfg ops s I0 I1 (length r) j)"
      using h e0 en by auto
  next
    assume h: "(\<forall>j. 0 \<le> j \<and> j < ?e \<longrightarrow> pt_ok cfg ops s I0 I1 (length r) j) \<and>
          (\<forall>j. ?e \<le> j \<and> j < ?n \<longrightarrow> pt_ok cfg ops s I0 I1 (length r) j)"
    show "\<forall>j. 0 \<le> j \<and> j < ?n \<longrightarrow> pt_ok cfg ops s I0 I1 (length r) j"
    proof (intro allI impI)
      fix j assume "0 \<le> j \<and> j < ?n"
      then have "(0 \<le> j \<and> j < ?e) \<or> (?e \<le> j \<and> j < ?n)" by linarith
      with h show "pt_ok cfg ops s I0 I1 (length r) j" by blast
    qed
  qed
  have ww: "written cfg ops s I0 I1 ?e ?n (written cfg ops s I0 I1 0 ?e r)
              = written cfg ops s I0 I1 0 ?n r"
    using e0 en by (rule written_written)
  have "Impl_run cfg ops s I0_ptr I0 I1 r_ptr r = Inr r' \<longleftrightarrow>
          (\<exists>i r1. loop_unaligned cfg ops s I0 I1 ?n 0 r = Inr (i, r1) \<and>
                  loop_tail cfg ops s I0 I1 ?n i r1 = Inr r')"
    using False by (auto simp: Impl_run_unaligned bind_f_Inr_iff Let_def)
  also have "\<dots> \<longleftrightarrow>
          (\<forall>j. 0 \<le> j \<and> j < ?e \<longrightarrow> pt_ok cfg ops s I0 I1 (length r) j) \<and>
          loop_tail cfg ops s I0 I1 ?n ?e (written cfg ops s I0 I1 0 ?e r) = Inr r'"
    unfolding loop_unaligned_iff by auto
  also have "\<dots> \<longleftrightarrow>
          (\<forall>j. 0 \<le> j \<and> j < ?n \<longrightarrow> pt_ok cfg ops s I0 I1 (length r) j) \<and>
          r' = written cfg ops s I0 I1 0 ?n r"
    unfolding rng using loop_tail_iff [OF e0, of cfg ops s I0 I1 ?n "written cfg ops s I0 I1 0 ?e r" r'] ww
    by auto
  finally show ?thesis .
qed

lemma dot_m128_eq:
  "dot_m128 cfg ops (Vector4 a0 a1 a2 a3) (Vector4 b0 b1 b2 b3) =
     fadd ops (fadd ops (fmul ops a0 b0) (fmul ops a1 b1))
              (fadd ops (fmul ops a2 b2) (fmul ops a3 b3))"
  by (simp add: dot_m128_def Let_def)

lemma dot_Vector4_eq:
  "dot_Vector4 cfg ops (Vector4 a0 a1 a2 a3) (Vector4 b0 b1 b2 b3) =
     fadd ops (fadd ops (fmul ops a0 b0) (fmul ops a1 b1))
              (fadd ops (fmul ops a2 b2) (fmul ops a3 b3))"
  by (simp add: dot_Vector4_def eigen_dot_def Let_def)

lemma load_data_iff:
  "load_data s I1 i = Inr d \<longleftrightarrow>
     in_buffer (inds s) i \<and>
     list_all (in_buffer I1) [inds s ! nat i, inds s ! nat i + 1,
                              inds s ! nat i + stride s, inds s ! nat i + stride s + 1] \<and>
     d = Vector4 (I1 ! nat (inds s ! nat i)) (I1 ! nat (inds s ! nat i + 1))
                 (I1 ! nat (inds s ! nat i + stride s)) (I1 ! nat (inds s ! nat i + stride s + 1))"
  unfolding load_data_def bind_f_Inr_iff rd_Inr_iff in_buffer_def by auto

lemma load_data_simd_iff:
  "load_data_simd s I1 p = Inr d \<longleftrightarrow>
     list_all (in_buffer I1) [p, p + 1, p + 2, p + 3,
                              p + stride s, p + stride s + 1, p + stride s + 2, p + stride s + 3] \<and>
     d = Vector4 (I1 ! nat p) (I1 ! nat (p + 1))
                 (I1 ! nat (p + stride s)) (I1 ! nat (p + stride s + 1))"
  unfolding load_data_simd_def bind_f_Inr_iff mm_loadu_ps_iff in_buffer_def by auto

lemma operator_call_iff:
  "operator_call cfg ops s I1 i = Inr v \<longleftrightarrow>
     in_buffer (valid_ptr s) i \<and>
     (if valid_ptr s ! nat i
      then in_buffer (interp_coeffs s) i \<and> in_buffer (inds s) i \<and>
           list_all (in_buffer I1) (footprint cfg (stride s) (inds s ! nat i)) \<and>
           v = sampled ops (interp_coeffs s ! nat i) I1 (inds s ! nat i) (stride s)
      else v = fzero ops)"
proof (cases "WITH_SIMD cfg")
  case True
  obtain w00 w10 w01 w11 where w: "interp_coeffs s ! nat i = Vector4 w00 w10 w01 w11"
    by (cases "interp_coeffs s ! nat i")
  show ?thesis
    unfolding operator_call_def bind_f_Inr_iff rd_Inr_iff
    using True w
    by (auto simp: load_data_simd_iff footprint_def in_buffer_def dot_m128_eq bind_f_Inr_iff rd_Inr_iff)
next
  case False
  obtain w00 w10 w01 w11 where w: "interp_coeffs s ! nat i = Vector4 w00 w10 w01 w11"
    by (cases "interp_coeffs s ! nat i")
  show ?thesis
    unfolding operator_call_def bind_f_Inr_iff rd_Inr_iff
    using False w
    by (auto simp: load_data_iff footprint_def in_buffer_def dot_Vector4_eq bind_f_Inr_iff rd_Inr_iff)
qed

lemma call_ok_pt_ok:
  assumes "call_ok cfg s I0 I1 r" "0 \<le> j" "j < int (length (interp_coeffs s))"
  shows "pt_ok cfg ops s I0 I1 (length r) j"
proof -
  from assms have n: "nat j < length (interp_coeffs s)" by simp
  from assms(1) have len: "length (inds s) = length (interp_coeffs s)"
      "length (valid_ptr s) = length (interp_coeffs s)"
      "length (interp_coeffs s) \<le> length I0" "length (interp_coeffs s) \<le> length r"
    and fp: "valid_ptr s ! nat j \<longrightarrow>
               list_all (in_buffer I1) (footprint cfg (stride s) (inds s ! nat j))"
    using n by (simp_all add: call_ok_def Let_def list_all_iff)
  have "\<exists>v. operator_call cfg ops s I1 j = Inr v"
    unfolding operator_call_iff using assms(2,3) len fp
    by (cases "valid_ptr s ! nat j") (simp_all add: in_buffer_def)
  then show ?thesis
    unfolding pt_ok_def using assms(2,3) len by simp
qed

lemma call_ok_returns:
  assumes "call_ok cfg s I0 I1 r"
  shows "Impl_run cfg ops s I0_ptr I0 I1 r_ptr r
           = Inr (written cfg ops s I0 I1 0 (int (length (interp_coeffs s))) r)"
  unfolding Impl_run_iff using call_ok_pt_ok [OF assms] by simp

lemma Impl_run_nth:
  assumes "Impl_run cfg ops s I0_ptr I0 I1 r_ptr r = Inr r'" "i < length (interp_coeffs s)"
  shows "i < length r' \<and> length r' = length r \<and> in_buffer (valid_ptr s) (int i) \<and>
         (\<exists>v. operator_call cfg ops s I1 (int i) = Inr v \<and> r' ! i = fsub ops v (I0 ! i))"
proof -
  from assms have ok: "pt_ok cfg ops s I0 I1 (length r) (int i)"
    and r': "r' = written cfg ops s I0 I1 0 (int (length (interp_coeffs s))) r"
    unfolding Impl_run_iff by simp_all
  from ok obtain v where v: "operator_call cfg ops s I1 (int i) = Inr v" and i: "i < length r"
    unfolding pt_ok_def by auto
  from v have "in_buffer (valid_ptr s) (int i)" unfolding operator_call_iff by simp
  moreover have "r' ! i = fsub ops v (I0 ! i)"
    unfolding r' using i assms(2) v by (simp add: written_nth resid_def)
  ultimately show ?thesis using v i r' by simp
qed

lemma written_idem:
  "written cfg ops s I0 I1 lo hi (written cfg ops s I0 I1 lo hi r) = written cfg ops s I0 I1 lo hi r"
  by (rule nth_equalityI) (simp_all add: written_nth)

lemma PhotoError_run_iff:
  "PhotoError_run cfg ops this I0_ptr I0 I1 r_ptr r = Inr (this', r') \<longleftrightarrow>
     this' = this \<and> Impl_run cfg ops (impl this) I0_ptr I0 I1 r_ptr r = Inr r'"
  unfolding PhotoError_run_def bind_f_Inr_iff by auto

lemma vector_resize_length [simp]: "length (vector_resize fill n xs) = n"
  by (simp add: vector_resize_def)

lemma Impl_init_empty:
  "Impl_init projectPoints uninit s P [] valid rows cols =
     (s\<lparr>interp_coeffs := [], inds := [], valid_ptr := [], stride := cols\<rparr>, [])"
  by (simp add: Impl_init_def resize_def vector_resize_def Let_def)

text \<open>Properties of \<^verbatim>\<open>init\<close> with \<^verbatim>\<open>projectPoints\<close> as the specification describes it.\<close>

lemma Impl_init_nth:
  assumes "Impl_init (projectPoints_spec rnd) uninit s P X valid rows cols = (s', valid')"
    and "i < length X"
  shows "length valid' = length X \<and> length (inds s') = length X \<and>
         length (interp_coeffs s') = length X \<and> valid_ptr s' = valid' \<and> stride s' = cols \<and>
         (\<exists>old. projectPoint_spec rnd P (rows, cols) (X ! i) old
            = (valid' ! i, inds s' ! i, interp_coeffs s' ! i))"
proof -
  from assms(2) have ne: "X \<noteq> []" by auto
  let ?s1 = "resize uninit (length X) s"
  let ?v1 = "vector_resize False (length X) valid"
  let ?old = "zip ?v1 (zip (inds ?s1) (interp_coeffs ?s1))"
  let ?out = "map2 (projectPoint_spec rnd P (rows, cols)) X ?old"
  have len: "length ?old = length X" by (simp add: resize_def)
  from assms(1) ne have s': "valid' = map fst ?out" "inds s' = map (\<lambda>t. fst (snd t)) ?out"
      "interp_coeffs s' = map (\<lambda>t. snd (snd t)) ?out" "valid_ptr s' = valid'" "stride s' = cols"
    by (auto simp: Impl_init_def projectPoints_spec_def Let_def)
  have lo: "length ?out = length X" using len by simp
  have "?out ! i = projectPoint_spec rnd P (rows, cols) (X ! i) (?old ! i)"
    using assms(2) len by simp
  then have "projectPoint_spec rnd P (rows, cols) (X ! i) (?old ! i)
               = (valid' ! i, inds s' ! i, interp_coeffs s' ! i)"
    unfolding s' using assms(2) len by simp
  moreover have "length valid' = length X" "length (inds s') = length X"
      "length (interp_coeffs s') = length X"
    unfolding s' using lo by simp_all
  ultimately show ?thesis using s'(4,5) by blast
qed

lemma projectPoint_spec_valid:
  assumes "projectPoint_spec rnd P (rows, cols) Xi old = (v, off, w)"
    and "pixel_spec rnd P Xi = (x, y)"
  shows "v = (scale_spec rnd P Xi \<noteq> 0 \<and> margin_rule rows cols x y)"
    and "v \<Longrightarrow> off = \<lfloor>y\<rfloor> * cols + \<lfloor>x\<rfloor>"
    and "v \<Longrightarrow> w = weights_spec rnd (rnd (x - of_int \<lfloor>x\<rfloor>)) (rnd (y - of_int \<lfloor>y\<rfloor>))"
  using assms unfolding projectPoint_spec_def
  by (auto simp: Let_def split: if_splits)

lemma Impl_init_valid:
  assumes "Impl_init (projectPoints_spec rnd) uninit s P X valid rows cols = (s', valid')"
    and "i < length X" and "pixel_spec rnd P (X ! i) = (x, y)"
  shows "valid' ! i = (scale_spec rnd P (X ! i) \<noteq> 0 \<and> margin_rule rows cols x y)"
proof -
  from Impl_init_nth [OF assms(1,2)] obtain old where
    "projectPoint_spec rnd P (rows, cols) (X ! i) old
       = (valid' ! i, inds s' ! i, interp_coeffs s' ! i)"
    by blast
  from projectPoint_spec_valid(1) [OF this assms(3)] show ?thesis .
qed

lemma margin_rule_outside:
  fixes x y :: real and rows cols :: int
  assumes "(of_int cols - 1 \<le> x \<and> x < of_int cols) \<or> (of_int rows - 1 \<le> y \<and> y < of_int rows)"
  shows "\<not> margin_rule rows cols x y"
proof -
  have "\<lfloor>x\<rfloor> = cols - 1" if "of_int cols - 1 \<le> x" "x < of_int cols"
    using that by (intro floor_unique) simp_all
  moreover have "\<lfloor>y\<rfloor> = rows - 1" if "of_int rows - 1 \<le> y" "y < of_int rows"
    using that by (intro floor_unique) simp_all
  ultimately show ?thesis using assms unfolding margin_rule_def by auto
qed

lemma margin_rule_inside:
  assumes "0 \<le> \<lfloor>x\<rfloor>" "\<lfloor>x\<rfloor> \<le> cols - 2" "0 \<le> \<lfloor>y\<rfloor>" "\<lfloor>y\<rfloor> \<le> rows - 2"
  shows "margin_rule rows cols x y"
  using assms unfolding margin_rule_def by simp

lemma weights_spec_bounds:
  assumes r: "unit_rounding rnd e" and d: "0 \<le> dx" "dx \<le> 1" "0 \<le> dy" "dy \<le> 1"
    and w: "weights_spec rnd dx dy = Vector4 w00 w10 w01 w11"
  shows "0 \<le> w00 \<and> w00 \<le> 1 \<and> 0 \<le> w10 \<and> w10 \<le> 1 \<and>
         0 \<le> w01 \<and> w01 \<le> 1 \<and> 0 \<le> w11 \<and> w11 \<le> 1 \<and>
         \<bar>w00 + w10 + w01 + w11 - 1\<bar> \<le> 6 * e + e * e"
proof -
  have R: "0 \<le> rnd t \<and> rnd t \<le> 1 \<and> \<bar>rnd t - t\<bar> \<le> e" if "0 \<le> t" "t \<le> 1" for t
    using r that unfolding unit_rounding_def by blast
  define a where "a = rnd (1 - dx)"
  define b where "b = rnd (1 - dy)"
  have a: "0 \<le> a" "a \<le> 1" "\<bar>a - (1 - dx)\<bar> \<le> e"
    using R [of "1 - dx"] d by (simp_all add: a_def)
  have b: "0 \<le> b" "b \<le> 1" "\<bar>b - (1 - dy)\<bar> \<le> e"
    using R [of "1 - dy"] d by (simp_all add: b_def)
  have p00: "0 \<le> a * b" "a * b \<le> 1" using a b by (simp_all add: mult_le_one)
  have p10: "0 \<le> dx * b" "dx * b \<le> 1" using d b by (simp_all add: mult_le_one)
  have p01: "0 \<le> a * dy" "a * dy \<le> 1" using a d by (simp_all add: mult_le_one)
  have p11: "0 \<le> dx * dy" "dx * dy \<le> 1" using d by (simp_all add: mult_le_one)
  from w have weq: "w00 = rnd (a * b)" "w10 = rnd (dx * b)" "w01 = rnd (a * dy)" "w11 = rnd (dx * dy)"
    unfolding weights_spec_def a_def b_def by simp_all
  have e00: "0 \<le> w00" "w00 \<le> 1" "\<bar>w00 - a * b\<bar> \<le> e"
    using R [OF p00] by (simp_all add: weq)
  have e10: "0 \<le> w10" "w10 \<le> 1" "\<bar>w10 - dx * b\<bar> \<le> e"
    using R [OF p10] by (simp_all add: weq)
  have e01: "0 \<le> w01" "w01 \<le> 1" "\<bar>w01 - a * dy\<bar> \<le> e"
    using R [OF p01] by (simp_all add: weq)
  have e11: "0 \<le> w11" "w11 \<le> 1" "\<bar>w11 - dx * dy\<bar> \<le> e"
    using R [OF p11] by (simp_all add: weq)
  define al where "al = a + dx - 1"
  define be where "be = b + dy - 1"
  have al: "\<bar>al\<bar> \<le> e" using a(3) by (simp add: al_def algebra_simps)
  have be: "\<bar>be\<bar> \<le> e" using b(3) by (simp add: be_def algebra_simps)
  have "\<bar>al * be\<bar> = \<bar>al\<bar> * \<bar>be\<bar>" by (rule abs_mult)
  also have "\<dots> \<le> e * e" using al be by (intro mult_mono) simp_all
  finally have ab: "\<bar>al * be\<bar> \<le> e * e" .
  have "a * b + dx * b + a * dy + dx * dy = (a + dx) * (b + dy)" by (simp add: algebra_simps)
  also have "\<dots> = 1 + al + be + al * be" by (simp add: al_def be_def algebra_simps)
  finally have s: "a * b + dx * b + a * dy + dx * dy = 1 + al + be + al * be" .
  have "w00 + w10 + w01 + w11 - 1 =
          (w00 - a * b) + (w10 - dx * b) + (w01 - a * dy) + (w11 - dx * dy) + al + be + al * be"
    using s by linarith
  moreover have "- e \<le> w00 - a * b" "w00 - a * b \<le> e" using e00(3) by (simp_all add: abs_le_iff)
  moreover have "- e \<le> w10 - dx * b" "w10 - dx * b \<le> e" using e10(3) by (simp_all add: abs_le_iff)
  moreover have "- e \<le> w01 - a * dy" "w01 - a * dy \<le> e" using e01(3) by (simp_all add: abs_le_iff)
  moreover have "- e \<le> w11 - dx * dy" "w11 - dx * dy \<le> e" using e11(3) by (simp_all add: abs_le_iff)
  moreover have "- e \<le> al" "al \<le> e" using al by (simp_all add: abs_le_iff)
  moreover have "- e \<le> be" "be \<le> e" using be by (simp_all add: abs_le_iff)
  moreover have "- (e * e) \<le> al * be" "al * be \<le> e * e" using ab by (simp_all add: abs_le_iff)
  ultimately have "- (6 * e + e * e) \<le> w00 + w10 + w01 + w11 - 1"
      "w00 + w10 + w01 + w11 - 1 \<le> 6 * e + e * e"
    by linarith+
  then have "\<bar>w00 + w10 + w01 + w11 - 1\<bar> \<le> 6 * e + e * e"
    by (simp add: abs_le_iff)
  with e00 e10 e01 e11 show ?thesis by simp
qed

lemma frac_unit: "0 \<le> x - of_int \<lfloor>x\<rfloor> \<and> x - of_int \<lfloor>x\<rfloor> < (1::real)"
  by linarith

lemma unit_rounding_rnd24: "unit_rounding rnd24 (1 / 33554432)"
  unfolding unit_rounding_def
proof (intro allI impI)
  fix t :: real assume t: "0 \<le> t \<and> t \<le> 1"
  let ?z = "t * 16777216 + 1 / 2"
  have lo: "of_int \<lfloor>?z\<rfloor> \<le> ?z" and hi: "?z < of_int \<lfloor>?z\<rfloor> + 1" by linarith+
  have z0: "0 \<le> \<lfloor>?z\<rfloor>" using t by simp
  have "?z < 16777217" using t by simp
  then have "\<lfloor>?z\<rfloor> < 16777217" by (simp add: floor_less_iff)
  then have z1: "of_int \<lfloor>?z\<rfloor> \<le> (16777216 :: real)" by simp
  have r: "rnd24 t * 16777216 = of_int \<lfloor>?z\<rfloor>" by (simp add: rnd24_def)
  have n0: "0 \<le> rnd24 t * 16777216" unfolding r using z0 by simp
  have n1: "rnd24 t * 16777216 \<le> 16777216" unfolding r using z1 .
  have d1: "rnd24 t * 16777216 - t * 16777216 \<le> 1 / 2"
    and d2: "- (1 / 2) \<le> rnd24 t * 16777216 - t * 16777216"
    using lo hi unfolding r by linarith+
  from n0 n1 d1 d2 have "0 \<le> rnd24 t" "rnd24 t \<le> 1"
      "rnd24 t - t \<le> 1 / 33554432" "- (1 / 33554432) \<le> rnd24 t - t"
    by linarith+
  then show "0 \<le> rnd24 t \<and> rnd24 t \<le> 1 \<and> \<bar>rnd24 t - t\<bar> \<le> 1 / 33554432"
    unfolding abs_le_iff by linarith
qed

lemma unit_rounding_exact: "unit_rounding (\<lambda>t. t) 0"
  by (simp add: unit_rounding_def)

text \<open>The build without \<^verbatim>\<open>WITH_SIMD\<close> never reads outside the image under the margin rule.\<close>

lemma I1_fault_Inr [simp]: "\<not> I1_fault (Inr x)"
  by (simp add: I1_fault_def)

lemma I1_fault_Inl [simp]: "I1_fault (Inl e) \<longleftrightarrow> (\<exists>k. e = OutOfBounds I1_buf k)"
  by (simp add: I1_fault_def)

lemma I1_fault_bind:
  "\<not> I1_fault m \<Longrightarrow> (\<And>x. m = Inr x \<Longrightarrow> \<not> I1_fault (f x)) \<Longrightarrow> \<not> I1_fault (bind_f m f)"
  by (cases m) (auto simp: I1_fault_def)

lemma I1_fault_rd: "b \<noteq> I1_buf \<Longrightarrow> \<not> I1_fault (rd b xs k)"
  by (simp add: I1_fault_def rd_def)

lemma I1_fault_wr: "b \<noteq> I1_buf \<Longrightarrow> \<not> I1_fault (wr b xs k v)"
  by (simp add: I1_fault_def wr_def)

lemma I1_fault_loadu: "b \<noteq> I1_buf \<Longrightarrow> \<not> I1_fault (mm_loadu_ps b xs k)"
  unfolding mm_loadu_ps_def by (intro I1_fault_bind I1_fault_rd I1_fault_Inr)

lemma I1_fault_storeu: "b \<noteq> I1_buf \<Longrightarrow> \<not> I1_fault (mm_storeu_ps b xs k v)"
  by (cases v) (simp, intro I1_fault_bind I1_fault_wr)

lemma I1_fault_load_data:
  assumes "in_buffer (inds s) i \<Longrightarrow>
           list_all (in_buffer I1) [inds s ! nat i, inds s ! nat i + 1,
                                    inds s ! nat i + stride s, inds s ! nat i + stride s + 1]"
  shows "\<not> I1_fault (load_data s I1 i)"
proof (cases "in_buffer (inds s) i")
  case False
  then show ?thesis
    by (simp add: load_data_def rd_def in_buffer_def I1_fault_def)
next
  case True
  with assms have "list_all (in_buffer I1) [inds s ! nat i, inds s ! nat i + 1,
                                    inds s ! nat i + stride s, inds s ! nat i + stride s + 1]"
    by simp
  then have "\<exists>d. load_data s I1 i = Inr d"
    using True by (simp add: load_data_iff)
  then show ?thesis by auto
qed

lemma I1_fault_operator_call:
  assumes "\<not> WITH_SIMD cfg" "neighbours_inside cfg s I1"
  shows "\<not> I1_fault (operator_call cfg ops s I1 i)"
proof (cases "in_buffer (valid_ptr s) i \<and> valid_ptr s ! nat i")
  case False
  then show ?thesis
    by (auto simp: operator_call_def rd_def in_buffer_def I1_fault_def)
next
  case True
  then have v: "rd valid_buf (valid_ptr s) i = Inr True"
    by (simp add: rd_def in_buffer_def)
  have ld: "\<not> I1_fault (load_data s I1 i)"
    using assms(2) True unfolding neighbours_inside_def by (intro I1_fault_load_data) blast
  have "operator_call cfg ops s I1 i =
          bind_f (rd coeffs_buf (interp_coeffs s) i) (\<lambda>c.
          bind_f (load_data s I1 i) (\<lambda>d. Inr (dot_Vector4 cfg ops c d)))"
    unfolding operator_call_def v using assms(1) by simp
  moreover have "\<not> I1_fault (bind_f (rd coeffs_buf (interp_coeffs s) i) (\<lambda>c.
          bind_f (load_data s I1 i) (\<lambda>d. Inr (dot_Vector4 cfg ops c d))))"
    by (intro I1_fault_bind I1_fault_rd ld I1_fault_Inr) simp
  ultimately show ?thesis by simp
qed

lemma I1_fault_store1:
  assumes "\<not> WITH_SIMD cfg" "neighbours_inside cfg s I1"
  shows "\<not> I1_fault (store1 cfg ops s I0 I1 i r)"
  unfolding store1_def
  by (intro I1_fault_bind I1_fault_rd I1_fault_wr I1_fault_operator_call assms) simp_all

lemma I1_fault_setr:
  assumes "\<not> WITH_SIMD cfg" "neighbours_inside cfg s I1"
  shows "\<not> I1_fault (setr_samples cfg ops s I1 i)"
  unfolding setr_samples_def
  by (intro I1_fault_bind I1_fault_operator_call assms I1_fault_Inr)

lemma I1_fault_store4:
  assumes "\<not> WITH_SIMD cfg" "neighbours_inside cfg s I1"
  shows "\<not> I1_fault (store4_unaligned cfg ops s I0 I1 i r)"
  unfolding store4_unaligned_def
  by (intro I1_fault_bind I1_fault_setr I1_fault_loadu I1_fault_storeu assms) simp_all

lemma I1_fault_loop_tail:
  assumes "\<not> WITH_SIMD cfg" "neighbours_inside cfg s I1"
  shows "\<not> I1_fault (loop_tail cfg ops s I0 I1 n i r)"
  using assms
proof (induction cfg ops s I0 I1 n i r rule: loop_tail.induct)
  case (1 cfg ops s I0 I1 n i r)
  show ?case
  proof (cases "i < n")
    case False
    then show ?thesis by (subst loop_tail.simps) simp
  next
    case True
    show ?thesis
    proof (cases "store1 cfg ops s I0 I1 i r")
      case (Inl e)
      with I1_fault_store1 [OF "1.prems", of ops I0 i r] True show ?thesis
        by (subst loop_tail.simps) simp
    next
      case (Inr r1)
      with "1.IH" [OF True Inr "1.prems"] True show ?thesis
        by (subst loop_tail.simps) simp
    qed
  qed
qed

lemma I1_fault_loop_unaligned:
  assumes "\<not> WITH_SIMD cfg" "neighbours_inside cfg s I1"
  shows "\<not> I1_fault (loop_unaligned cfg ops s I0 I1 n i r)"
  using assms
proof (induction cfg ops s I0 I1 n i r rule: loop_unaligned.induct)
  case (1 cfg ops s I0 I1 n i r)
  show ?case
  proof (cases "i \<le> n - 8")
    case False
    then show ?thesis by (subst loop_unaligned.simps) simp
  next
    case True
    show ?thesis
    proof (cases "store4_unaligned cfg ops s I0 I1 i r")
      case (Inl e)
      with I1_fault_store4 [OF "1.prems", of ops I0 i r] True show ?thesis
        by (subst loop_unaligned.simps) simp
    next
      case r1: (Inr r1)
      show ?thesis
      proof (cases "store4_unaligned cfg ops s I0 I1 (i + 4) r1")
        case (Inl e)
        with I1_fault_store4 [OF "1.prems", of ops I0 "i + 4" r1] True r1 show ?thesis
          by (subst loop_unaligned.simps) simp
      next
        case (Inr r2)
        with "1.IH" [OF True r1 Inr "1.prems"] True r1 show ?thesis
          by (subst loop_unaligned.simps) simp
      qed
    qed
  qed
qed

lemma scalar_build_reads_inside:
  assumes "\<not> WITH_SIMD cfg" "neighbours_inside cfg s I1"
  shows "Impl_run cfg ops s I0_ptr I0 I1 r_ptr r \<noteq> Inl (OutOfBounds I1_buf k)"
proof -
  let ?n = "int (length (interp_coeffs s))"
  have "\<not> I1_fault (Impl_run cfg ops s I0_ptr I0 I1 r_ptr r)"
  proof (cases "loop_unaligned cfg ops s I0 I1 ?n 0 r")
    case (Inl e)
    with I1_fault_loop_unaligned [OF assms, of ops I0 ?n 0 r] show ?thesis
      by (simp add: Impl_run_unaligned Let_def)
  next
    case (Inr p)
    obtain i r1 where p: "p = (i, r1)" by (cases p)
    from I1_fault_loop_tail [OF assms, of ops I0 ?n i r1] Inr p show ?thesis
      by (simp add: Impl_run_unaligned Let_def)
  qed
  then show ?thesis by (auto simp: I1_fault_def)
qed

lemma margin_neighbours:
  fixes xi yi rows cols :: int
  assumes "0 \<le> xi" "xi < cols - 1" "0 \<le> yi" "yi < rows - 1" "rows * cols \<le> int (length I1)"
  shows "list_all (in_buffer I1) [yi * cols + xi, yi * cols + xi + 1,
                                  yi * cols + xi + cols, yi * cols + xi + cols + 1]"
proof -
  have c: "0 \<le> cols" using assms by simp
  have lo: "0 \<le> yi * cols" using assms(3) c by simp
  have "(yi + 2) * cols \<le> rows * cols" using assms(4) c by (intro mult_right_mono) simp_all
  then have hi: "yi * cols + 2 * cols \<le> int (length I1)"
    using assms(5) by (simp add: algebra_simps)
  show ?thesis
    unfolding in_buffer_def using lo hi assms(1,2) c by simp
qed

lemma margin_rule_safe:
  assumes "\<not> WITH_SIMD cfg" "stride s = cols" "rows * cols \<le> int (length I1)"
    and "\<forall>i<length (valid_ptr s). valid_ptr s ! i \<longrightarrow> i < length (inds s) \<longrightarrow>
           (\<exists>xi yi. inds s ! i = yi * cols + xi \<and>
                    0 \<le> xi \<and> xi < cols - 1 \<and> 0 \<le> yi \<and> yi < rows - 1)"
  shows "Impl_run cfg ops s I0_ptr I0 I1 r_ptr r \<noteq> Inl (OutOfBounds I1_buf k)"
proof -
  have "neighbours_inside cfg s I1"
    unfolding neighbours_inside_def
  proof (intro allI impI)
    fix i assume h: "in_buffer (valid_ptr s) i \<and> valid_ptr s ! nat i \<and> in_buffer (inds s) i"
    then have "nat i < length (valid_ptr s)" "nat i < length (inds s)"
      by (simp_all add: in_buffer_def nat_less_iff)
    with assms(4) h obtain xi yi where
      "inds s ! nat i = yi * cols + xi" "0 \<le> xi" "xi < cols - 1" "0 \<le> yi" "yi < rows - 1"
      by blast
    with margin_neighbours [of xi cols yi rows I1] assms(2,3)
    show "list_all (in_buffer I1) [inds s ! nat i, inds s ! nat i + 1,
                                   inds s ! nat i + stride s, inds s ! nat i + stride s + 1]"
      by simp
  qed
  with assms(1) show ?thesis by (rule scalar_build_reads_inside)
qed


section \<open>The claims about run\<close>

text \<open>
  Claim C5. For the same inputs and every number of points, the loop over groups of
  eight followed by the element-by-element loop, and the element-by-element loop alone,
  return the same residual buffer: one of them returns \<open>r'\<close> exactly when the other
  does. The equality is exact, for every float arithmetic.
\<close>

theorem C5_batched_equals_scalar:
  "(Impl_run cfg ops s I0_ptr I0 I1 r_ptr r = Inr r') = (run_scalar cfg ops s I0 I1 r = Inr r')"
  unfolding Impl_run_iff run_scalar_def
  using loop_tail_iff [of 0 cfg ops s I0 I1 "int (length (interp_coeffs s))" r r'] by simp

theorem C5_batched_equals_scalar_witness:
  "run_scalar scalar_cfg real_arith impl9 [1, 2, 3, 4, 5, 6, 7, 8, 9] image4x4 (replicate 10 100)
     = Inr [3/2, -2, 3/2, 5/2, 5/2, -6, 7/2, 7/2, 7/2, 100]"
proof -
  have "Impl_run scalar_cfg real_arith impl9 16 [1, 2, 3, 4, 5, 6, 7, 8, 9] image4x4 32
          (replicate 10 100) = Inr [3/2, -2, 3/2, 5/2, 5/2, -6, 7/2, 7/2, 7/2, 100]"
    by code_simp
  then show ?thesis by (rule C5_batched_equals_scalar [THEN iffD1])
qed

text \<open>
  Claim C10. The result of run does not depend on the addresses of \<open>r\<close> and \<open>I0\<close>:
  the branch with aligned loads and stores, taken when both are multiples of 16, and
  the branch with unaligned ones return the same value (the aligned accesses of the
  first never fault, since the index is a multiple of eight).
\<close>

theorem C10_alignment_irrelevant:
  "Impl_run cfg ops s I0_ptr I0 I1 r_ptr r = Impl_run cfg ops s I0_ptr' I0 I1 r_ptr' r"
  by (simp only: Impl_run_unaligned)

theorem C10_alignment_irrelevant_witness:
  "Impl_run scalar_cfg real_arith impl9 20 [1, 2, 3, 4, 5, 6, 7, 8, 9] image4x4 36
          (replicate 10 100) = Inr [3/2, -2, 3/2, 5/2, 5/2, -6, 7/2, 7/2, 7/2, 100]"
proof -
  have "Impl_run scalar_cfg real_arith impl9 16 [1, 2, 3, 4, 5, 6, 7, 8, 9] image4x4 32
          (replicate 10 100) = Inr [3/2, -2, 3/2, 5/2, 5/2, -6, 7/2, 7/2, 7/2, 100]"
    by code_simp
  then show ?thesis
    by (simp only: C10_alignment_irrelevant [of scalar_cfg real_arith impl9 20 _ _ 36 _ 16 32])
qed

text \<open>
  Claim C9. A call of run that returns leaves the object as it was, keeps the length of
  the residual buffer and every element of it from index N on (N the number of points
  of the state), and a second call with the same \<open>I0\<close> and \<open>I1\<close> on the buffer the
  first one left returns that same buffer.
\<close>

theorem C9_run_frame:
  assumes "PhotoError_run cfg ops this I0_ptr I0 I1 r_ptr r = Inr (this', r')"
  shows "this' = this \<and> length r' = length r \<and>
         (\<forall>k. length (interp_coeffs (impl this)) \<le> k \<and> k < length r \<longrightarrow> r' ! k = r ! k) \<and>
         PhotoError_run cfg ops this' I0_ptr I0 I1 r_ptr r' = Inr (this', r')"
proof -
  let ?n = "int (length (interp_coeffs (impl this)))"
  from assms have t: "this' = this"
    and run: "Impl_run cfg ops (impl this) I0_ptr I0 I1 r_ptr r = Inr r'"
    unfolding PhotoError_run_iff by simp_all
  from run have ok: "\<forall>j. 0 \<le> j \<and> j < ?n \<longrightarrow> pt_ok cfg ops (impl this) I0 I1 (length r) j"
    and r': "r' = written cfg ops (impl this) I0 I1 0 ?n r"
    unfolding Impl_run_iff by simp_all
  have len: "length r' = length r" unfolding r' by simp
  have frame: "\<forall>k. length (interp_coeffs (impl this)) \<le> k \<and> k < length r \<longrightarrow> r' ! k = r ! k"
    unfolding r' by (simp add: written_nth)
  have "Impl_run cfg ops (impl this) I0_ptr I0 I1 r_ptr r' = Inr r'"
    unfolding Impl_run_iff using ok len r' by (simp add: written_idem)
  then have "PhotoError_run cfg ops this' I0_ptr I0 I1 r_ptr r' = Inr (this', r')"
    unfolding PhotoError_run_iff t by simp
  with t len frame show ?thesis by simp
qed

theorem C9_run_frame_witness:
  "PhotoError_run scalar_cfg real_arith \<lparr>impl = impl9\<rparr> 16 [1, 2, 3, 4, 5, 6, 7, 8, 9] image4x4 32
     [3/2, -2, 3/2, 5/2, 5/2, -6, 7/2, 7/2, 7/2, 100]
   = Inr (\<lparr>impl = impl9\<rparr>, [3/2, -2, 3/2, 5/2, 5/2, -6, 7/2, 7/2, 7/2, 100])"
proof -
  have "PhotoError_run scalar_cfg real_arith \<lparr>impl = impl9\<rparr> 16 [1, 2, 3, 4, 5, 6, 7, 8, 9] image4x4 32
          (replicate 10 100)
        = Inr (\<lparr>impl = impl9\<rparr>, [3/2, -2, 3/2, 5/2, 5/2, -6, 7/2, 7/2, 7/2, 100])"
    by code_simp
  from C9_run_frame [OF this] show ?thesis by simp
qed

text \<open>
  Claim C1, as amended. For a point \<open>i\<close> whose validity flag is false, run takes the
  sample to be \<^verbatim>\<open>0.0f\<close> and writes \<open>r[i] = 0.0f - I0[i]\<close>, for every \<open>I0\<close> and
  \<open>I1\<close>; and run returns whenever the call satisfies \<open>call_ok\<close>.
\<close>

theorem C1_invalid_point_residual:
  assumes "i < length (interp_coeffs s)" "\<not> valid_ptr s ! i"
  shows "(call_ok cfg s I0 I1 r \<longrightarrow> (\<exists>r'. Impl_run cfg ops s I0_ptr I0 I1 r_ptr r = Inr r')) \<and>
         (\<forall>r'. Impl_run cfg ops s I0_ptr I0 I1 r_ptr r = Inr r' \<longrightarrow>
                r' ! i = fsub ops (fzero ops) (I0 ! i))"
proof (intro conjI allI impI)
  assume "call_ok cfg s I0 I1 r"
  then show "\<exists>r'. Impl_run cfg ops s I0_ptr I0 I1 r_ptr r = Inr r'"
    by (simp add: call_ok_returns)
next
  fix r' assume "Impl_run cfg ops s I0_ptr I0 I1 r_ptr r = Inr r'"
  from Impl_run_nth [OF this assms(1)] obtain v where
    v: "operator_call cfg ops s I1 (int i) = Inr v" and r': "r' ! i = fsub ops v (I0 ! i)"
    by blast
  from v assms(2) have "v = fzero ops" unfolding operator_call_iff by simp
  with r' show "r' ! i = fsub ops (fzero ops) (I0 ! i)" by simp
qed

theorem C1_invalid_point_residual_witness:
  "call_ok scalar_cfg impl9 [1, 2, 3, 4, 5, 6, 7, 8, 9] image4x4 (replicate 10 100) \<and>
   Impl_run scalar_cfg real_arith impl9 16 [1, 2, 3, 4, 5, 6, 7, 8, 9] image4x4 32
          (replicate 10 100) = Inr [3/2, -2, 3/2, 5/2, 5/2, -6, 7/2, 7/2, 7/2, 100] \<and>
   [3/2, -2, 3/2, 5/2, 5/2, -6, 7/2, 7/2, 7/2, 100] ! 5 = fsub real_arith (fzero real_arith) ([1, 2, 3, 4, 5, 6, 7, 8, 9 :: real] ! 5)"
proof -
  have a: "(5::nat) < length (interp_coeffs impl9)" by code_simp
  have b: "\<not> valid_ptr impl9 ! 5" by code_simp
  have c: "Impl_run scalar_cfg real_arith impl9 16 [1, 2, 3, 4, 5, 6, 7, 8, 9] image4x4 32
          (replicate 10 100) = Inr [3/2, -2, 3/2, 5/2, 5/2, -6, 7/2, 7/2, 7/2, 100]"
    by code_simp
  have d: "call_ok scalar_cfg impl9 [1, 2, 3, 4, 5, 6, 7, 8, 9] image4x4 (replicate 10 100)"
    by code_simp
  from C1_invalid_point_residual [OF a b, of scalar_cfg "[1, 2, 3, 4, 5, 6, 7, 8, 9]" image4x4
      "replicate 10 100" real_arith 16 32] c d
  show ?thesis by blast
qed

text \<open>
  Claim C1 as stated fails: with one invalid point and \<open>I0 = [7]\<close>, run writes
  \<open>-7\<close>, not \<open>0\<close>.
\<close>

theorem C1_counterexample:
  "\<not> valid_ptr impl_invalid ! 0 \<and>
   Impl_run scalar_cfg real_arith impl_invalid 16 [7] image4x4 32 [0] = Inr [- 7] \<and>
   [- 7 :: real] ! 0 \<noteq> 0"
  by code_simp

text \<open>
  Claim C3. For a point \<open>i\<close> whose validity flag is true, with weights
  \<open>(w00, w10, w01, w11)\<close> and base offset \<open>offset\<close>, run writes
  \<open>r[i] = (w00*I1[o] + w10*I1[o+1] + w01*I1[o+stride] + w11*I1[o+stride+1]) - I0[i]\<close>,
  the sum being taken in pairs, in every build configuration and for every float
  arithmetic; and run returns whenever the call satisfies \<open>call_ok\<close>.
\<close>

theorem C3_valid_point_residual:
  assumes "i < length (interp_coeffs s)" "valid_ptr s ! i"
    and "interp_coeffs s ! i = Vector4 w00 w10 w01 w11" and "inds s ! i = offset"
  shows "(call_ok cfg s I0 I1 r \<longrightarrow> (\<exists>r'. Impl_run cfg ops s I0_ptr I0 I1 r_ptr r = Inr r')) \<and>
         (\<forall>r'. Impl_run cfg ops s I0_ptr I0 I1 r_ptr r = Inr r' \<longrightarrow>
            r' ! i = fsub ops
              (fadd ops (fadd ops (fmul ops w00 (I1 ! nat offset))
                                  (fmul ops w10 (I1 ! nat (offset + 1))))
                        (fadd ops (fmul ops w01 (I1 ! nat (offset + stride s)))
                                  (fmul ops w11 (I1 ! nat (offset + stride s + 1)))))
              (I0 ! i))"
proof (intro conjI allI impI)
  assume "call_ok cfg s I0 I1 r"
  then show "\<exists>r'. Impl_run cfg ops s I0_ptr I0 I1 r_ptr r = Inr r'"
    by (simp add: call_ok_returns)
next
  fix r' assume "Impl_run cfg ops s I0_ptr I0 I1 r_ptr r = Inr r'"
  from Impl_run_nth [OF this assms(1)] obtain v where
    v: "operator_call cfg ops s I1 (int i) = Inr v" and r': "r' ! i = fsub ops v (I0 ! i)"
    by blast
  from v assms(2) have "v = sampled ops (interp_coeffs s ! i) I1 (inds s ! i) (stride s)"
    unfolding operator_call_iff by simp
  with r' assms(3,4) show "r' ! i = fsub ops
              (fadd ops (fadd ops (fmul ops w00 (I1 ! nat offset))
                                  (fmul ops w10 (I1 ! nat (offset + 1))))
                        (fadd ops (fmul ops w01 (I1 ! nat (offset + stride s)))
                                  (fmul ops w11 (I1 ! nat (offset + stride s + 1)))))
              (I0 ! i)" by simp
qed

theorem C3_valid_point_residual_witness:
  "call_ok scalar_cfg impl1 [7] image4x4 [0] \<and>
   Impl_run scalar_cfg real_arith impl1 16 [7] image4x4 32 [0] = Inr [1/2] \<and>
   [1/2 :: real] ! 0 = (1/4 * 5 + 1/4 * 6 + (1/4 * 9 + 1/4 * 10)) - 7"
proof -
  have a: "(0::nat) < length (interp_coeffs impl1)" by code_simp
  have b: "valid_ptr impl1 ! 0" by code_simp
  have c: "interp_coeffs impl1 ! 0 = Vector4 (1/4) (1/4) (1/4) (1/4)" by code_simp
  have d: "inds impl1 ! 0 = 5" by code_simp
  have e: "Impl_run scalar_cfg real_arith impl1 16 [7] image4x4 32 [0] = Inr [1/2]"
    by code_simp
  have f: "call_ok scalar_cfg impl1 [7] image4x4 [0]" by code_simp
  from C3_valid_point_residual [OF a b c d, of scalar_cfg "[7]" image4x4 "[0]" real_arith 16 32] e f
  show ?thesis by simp
qed

text \<open>
  Claim C2 fails in the build with \<^verbatim>\<open>WITH_SIMD\<close>. On the 4 by 4 image, the point with
  \<open>xi = 2\<close>, \<open>yi = 2\<close> satisfies the margin rule and has offset \<open>2 * 4 + 2 = 10\<close>;
  \<^verbatim>\<open>load_data_simd\<close> loads the floats 10 to 13 and 14 to 17, and the image ends at 15.
  The build without \<^verbatim>\<open>WITH_SIMD\<close> reads the four neighbours only and returns; that
  build satisfies the claim on every input (\<open>margin_rule_safe\<close>).
\<close>

theorem C2_simd_reads_past_image:
  "(0 \<le> (2::int) \<and> (2::int) < 4 - 1 \<and> 0 \<le> (2::int) \<and> (2::int) < 4 - 1) \<and>
   inds impl_corner = [2 * 4 + 2] \<and> valid_ptr impl_corner = [True] \<and> stride impl_corner = 4 \<and>
   int (length image4x4) = 4 * 4 \<and>
   WITH_SIMD simd_cfg \<and> \<not> WITH_SIMD scalar_cfg \<and>
   Impl_run simd_cfg real_arith impl_corner 16 [7] image4x4 32 [0]
     = Inl (OutOfBounds I1_buf 16) \<and>
   Impl_run scalar_cfg real_arith impl_corner 16 [7] image4x4 32 [0]
     = Inr [11/2]"
  by code_simp

section \<open>The claims about init\<close>

text \<open>
  Claim C8. For an empty point set, init leaves the validity vector, the offsets and the
  weights empty (\<^verbatim>\<open>projectPoints\<close> is not called), and run on the resulting state
  returns the residual buffer as it was; neither call can fault.
\<close>

theorem C8_empty_input:
  assumes "Impl_init projectPoints uninit s P [] valid rows cols = (s', valid')"
  shows "valid' = [] \<and> interp_coeffs s' = [] \<and> inds s' = [] \<and> valid_ptr s' = [] \<and>
         Impl_run cfg ops s' I0_ptr I0 I1 r_ptr r = Inr r"
proof -
  from assms have s': "s' = s\<lparr>interp_coeffs := [], inds := [], valid_ptr := [], stride := cols\<rparr>"
    and v: "valid' = []"
    unfolding Impl_init_empty by simp_all
  have "Impl_run cfg ops s' I0_ptr I0 I1 r_ptr r = Inr r"
    unfolding s' by (simp add: Impl_run_def)
  with s' v show ?thesis by simp
qed

theorem C8_empty_input_witness:
  "Impl_init (projectPoints_spec rnd24) (Vector4 0 0 0 0) impl9 P_id [] [True, False] 4 4
     = (\<lparr>stride = 4, interp_coeffs = [], inds = [], valid_ptr = []\<rparr>, []) \<and>
   Impl_run scalar_cfg real_arith \<lparr>stride = 4, interp_coeffs = [], inds = [], valid_ptr = []\<rparr>
     16 [] image4x4 32 [1, 2] = Inr [1, 2]"
proof -
  have a: "Impl_init (projectPoints_spec rnd24) (Vector4 0 0 0 0) impl9 P_id [] [True, False] 4 4
     = (\<lparr>stride = 4, interp_coeffs = [], inds = [], valid_ptr = []\<rparr>, [])"
    by code_simp
  from C8_empty_input [OF a, of scalar_cfg real_arith 16 "[]" image4x4 32 "[1, 2]"] a
  show ?thesis by simp
qed

text \<open>
  Claim C4. With \<^verbatim>\<open>projectPoints\<close> as the specification describes it, init gives
  every point \<open>i\<close> the class \<open>valid[i] = (0 \<le> xi < cols - 1) \<and> (0 \<le> yi < rows - 1)\<close>,
  where \<open>(xi, yi)\<close> are the floors of the pixel coordinates \<open>(x, y)\<close> computed for the
  point (a point of scale zero, which has no pixel coordinates, is invalid). In
  particular a point with \<open>x\<close> in \<open>[cols-1, cols)\<close> or \<open>y\<close> in \<open>[rows-1, rows)\<close> is
  invalid, and a point with both floors in \<open>[0, cols-2] \<times> [0, rows-2]\<close> is valid. This
  holds whatever the rounding of the arithmetic.
\<close>

theorem C4_floor_classification:
  assumes "Impl_init (projectPoints_spec rnd) uninit s P X valid rows cols = (s', valid')"
    and "i < length X" and "pixel_spec rnd P (X ! i) = (x, y)"
    and "xi = \<lfloor>x\<rfloor>" and "yi = \<lfloor>y\<rfloor>"
  shows "length valid' = length X \<and>
         valid' ! i = (scale_spec rnd P (X ! i) \<noteq> 0 \<and>
                       0 \<le> xi \<and> xi < cols - 1 \<and> 0 \<le> yi \<and> yi < rows - 1) \<and>
         ((of_int cols - 1 \<le> x \<and> x < of_int cols) \<or>
          (of_int rows - 1 \<le> y \<and> y < of_int rows) \<longrightarrow> \<not> valid' ! i) \<and>
         (scale_spec rnd P (X ! i) \<noteq> 0 \<and>
          0 \<le> xi \<and> xi \<le> cols - 2 \<and> 0 \<le> yi \<and> yi \<le> rows - 2 \<longrightarrow> valid' ! i)"
proof -
  have len: "length valid' = length X"
    using Impl_init_nth [OF assms(1,2)] by simp
  have v: "valid' ! i = (scale_spec rnd P (X ! i) \<noteq> 0 \<and> margin_rule rows cols x y)"
    by (rule Impl_init_valid [OF assms(1,2,3)])
  have a: "valid' ! i = (scale_spec rnd P (X ! i) \<noteq> 0 \<and>
                       0 \<le> xi \<and> xi < cols - 1 \<and> 0 \<le> yi \<and> yi < rows - 1)"
    unfolding v margin_rule_def assms(4,5) by simp
  have b: "(of_int cols - 1 \<le> x \<and> x < of_int cols) \<or>
          (of_int rows - 1 \<le> y \<and> y < of_int rows) \<longrightarrow> \<not> valid' ! i"
    unfolding v using margin_rule_outside [of cols x rows y] by blast
  have c: "scale_spec rnd P (X ! i) \<noteq> 0 \<and>
          0 \<le> xi \<and> xi \<le> cols - 2 \<and> 0 \<le> yi \<and> yi \<le> rows - 2 \<longrightarrow> valid' ! i"
    unfolding a by simp
  from len a b c show ?thesis by blast
qed

theorem C4_floor_classification_witness:
  "Impl_init (projectPoints_spec rnd24) (Vector4 0 0 0 0) impl0 P_id points4 [] 4 4
     = (\<lparr>stride = 4,
         interp_coeffs = [Vector4 0 0 0 0, Vector4 0 0 0 0, Vector4 (1/4) (1/4) (1/4) (1/4),
                          Vector4 0 0 0 0],
         inds = [0, 0, 10, 0], valid_ptr = [False, False, True, False]\<rparr>,
        [False, False, True, False]) \<and>
   pixel_spec rnd24 P_id (points4 ! 0) = (-1/2, 1/2) \<and>
   \<lfloor>-1/2 :: real\<rfloor> = -1 \<and> \<lfloor>1/2 :: real\<rfloor> = 0 \<and>
   [False, False, True, False] ! 0
     = (scale_spec rnd24 P_id (points4 ! 0) \<noteq> 0 \<and>
        0 \<le> (-1::int) \<and> (-1::int) < 4 - 1 \<and> 0 \<le> (0::int) \<and> (0::int) < 4 - 1)"
proof -
  have a: "Impl_init (projectPoints_spec rnd24) (Vector4 0 0 0 0) impl0 P_id points4 [] 4 4
     = (\<lparr>stride = 4,
         interp_coeffs = [Vector4 0 0 0 0, Vector4 0 0 0 0, Vector4 (1/4) (1/4) (1/4) (1/4),
                          Vector4 0 0 0 0],
         inds = [0, 0, 10, 0], valid_ptr = [False, False, True, False]\<rparr>,
        [False, False, True, False])"
    by code_simp
  have b: "0 < length points4" by code_simp
  have c: "pixel_spec rnd24 P_id (points4 ! 0) = (-1/2, 1/2)" by code_simp
  have d: "\<lfloor>-1/2 :: real\<rfloor> = -1" by code_simp
  have e: "\<lfloor>1/2 :: real\<rfloor> = 0" by code_simp
  note t = C4_floor_classification [OF a b c d [symmetric] e [symmetric]]
  from t have f: "[False, False, True, False] ! 0
     = (scale_spec rnd24 P_id (points4 ! 0) \<noteq> 0 \<and>
        0 \<le> (-1::int) \<and> (-1::int) < 4 - 1 \<and> 0 \<le> (0::int) \<and> (0::int) < 4 - 1)"
    by (rule conjunct1 [OF conjunct2])
  from a c d e f show ?thesis by (intro conjI)
qed



text \<open>
  Claim C7. With \<^verbatim>\<open>projectPoints\<close> as the specification describes it, for every
  point that init marks valid the fractional parts \<open>x - \<lfloor>x\<rfloor>\<close>, \<open>y - \<lfloor>y\<rfloor>\<close> of its pixel
  coordinates lie in \<open>[0, 1)\<close>, and the weights are \<open>(1-dx)(1-dy)\<close>, \<open>dx(1-dy)\<close>,
  \<open>(1-dx)dy\<close>, \<open>dx*dy\<close> computed from them, each operation rounded. For a rounding
  that keeps \<open>[0, 1]\<close> and errs by at most \<open>e\<close> there, every weight lies in \<open>[0, 1]\<close>
  and the sum of the four is within \<open>6 * e + e * e\<close> of 1: within \<open>1e-6\<close> when
  \<open>e \<le> 1e-7\<close>, as for single precision, and exactly 1, with the weights exactly the
  four products, when the arithmetic is exact.
\<close>

theorem C7_weights:
  assumes "Impl_init (projectPoints_spec rnd) uninit s P X valid rows cols = (s', valid')"
    and "i < length X" and "valid' ! i"
    and "interp_coeffs s' ! i = Vector4 w00 w10 w01 w11"
    and "pixel_spec rnd P (X ! i) = (x, y)"
    and "dx = rnd (x - of_int \<lfloor>x\<rfloor>)" and "dy = rnd (y - of_int \<lfloor>y\<rfloor>)"
    and "unit_rounding rnd e"
  shows "0 \<le> x - of_int \<lfloor>x\<rfloor> \<and> x - of_int \<lfloor>x\<rfloor> < 1 \<and>
         0 \<le> y - of_int \<lfloor>y\<rfloor> \<and> y - of_int \<lfloor>y\<rfloor> < 1 \<and>
         0 \<le> dx \<and> dx \<le> 1 \<and> \<bar>dx - (x - of_int \<lfloor>x\<rfloor>)\<bar> \<le> e \<and>
         0 \<le> dy \<and> dy \<le> 1 \<and> \<bar>dy - (y - of_int \<lfloor>y\<rfloor>)\<bar> \<le> e \<and>
         w00 = rnd (rnd (1 - dx) * rnd (1 - dy)) \<and> w10 = rnd (dx * rnd (1 - dy)) \<and>
         w01 = rnd (rnd (1 - dx) * dy) \<and> w11 = rnd (dx * dy) \<and>
         0 \<le> w00 \<and> w00 \<le> 1 \<and> 0 \<le> w10 \<and> w10 \<le> 1 \<and>
         0 \<le> w01 \<and> w01 \<le> 1 \<and> 0 \<le> w11 \<and> w11 \<le> 1 \<and>
         \<bar>w00 + w10 + w01 + w11 - 1\<bar> \<le> 6 * e + e * e \<and>
         (e \<le> 1 / 10 ^ 7 \<longrightarrow> \<bar>w00 + w10 + w01 + w11 - 1\<bar> \<le> 1 / 10 ^ 6) \<and>
         (e = 0 \<longrightarrow> dx = x - of_int \<lfloor>x\<rfloor> \<and> dy = y - of_int \<lfloor>y\<rfloor> \<and>
            w00 = (1 - dx) * (1 - dy) \<and> w10 = dx * (1 - dy) \<and>
            w01 = (1 - dx) * dy \<and> w11 = dx * dy \<and> w00 + w10 + w01 + w11 = 1)"
proof -
  have R: "0 \<le> rnd t \<and> rnd t \<le> 1 \<and> \<bar>rnd t - t\<bar> \<le> e" if "0 \<le> t" "t \<le> 1" for t
    using assms(8) that unfolding unit_rounding_def by blast
  have fx: "0 \<le> x - of_int \<lfloor>x\<rfloor>" "x - of_int \<lfloor>x\<rfloor> < 1"
    and fy: "0 \<le> y - of_int \<lfloor>y\<rfloor>" "y - of_int \<lfloor>y\<rfloor> < 1"
    by linarith+
  have dx: "0 \<le> dx" "dx \<le> 1" "\<bar>dx - (x - of_int \<lfloor>x\<rfloor>)\<bar> \<le> e"
    using R [of "x - of_int \<lfloor>x\<rfloor>"] fx unfolding assms(6) by simp_all
  have dy: "0 \<le> dy" "dy \<le> 1" "\<bar>dy - (y - of_int \<lfloor>y\<rfloor>)\<bar> \<le> e"
    using R [of "y - of_int \<lfloor>y\<rfloor>"] fy unfolding assms(7) by simp_all
  from Impl_init_nth [OF assms(1,2)] assms(3,4) obtain old where
    "projectPoint_spec rnd P (rows, cols) (X ! i) old
       = (True, inds s' ! i, Vector4 w00 w10 w01 w11)"
    by auto
  from projectPoint_spec_valid(3) [OF this assms(5)]
  have w: "weights_spec rnd dx dy = Vector4 w00 w10 w01 w11"
    unfolding assms(6,7) by simp
  then have weq: "w00 = rnd (rnd (1 - dx) * rnd (1 - dy))" "w10 = rnd (dx * rnd (1 - dy))"
      "w01 = rnd (rnd (1 - dx) * dy)" "w11 = rnd (dx * dy)"
    unfolding weights_spec_def by simp_all
  from weights_spec_bounds [OF assms(8) dx(1,2) dy(1,2) w]
  have wb: "0 \<le> w00" "w00 \<le> 1" "0 \<le> w10" "w10 \<le> 1" "0 \<le> w01" "w01 \<le> 1"
      "0 \<le> w11" "w11 \<le> 1" and sm: "\<bar>w00 + w10 + w01 + w11 - 1\<bar> \<le> 6 * e + e * e"
    by simp_all
  have e0: "0 \<le> e" using dx(3) by linarith
  have tol: "\<bar>w00 + w10 + w01 + w11 - 1\<bar> \<le> 1 / 10 ^ 6" if "e \<le> 1 / 10 ^ 7"
  proof -
    have "e * e \<le> 1 * e" using that e0 by (intro mult_right_mono) simp_all
    with sm that show ?thesis by simp
  qed
  have exact: "dx = x - of_int \<lfloor>x\<rfloor> \<and> dy = y - of_int \<lfloor>y\<rfloor> \<and>
            w00 = (1 - dx) * (1 - dy) \<and> w10 = dx * (1 - dy) \<and>
            w01 = (1 - dx) * dy \<and> w11 = dx * dy \<and> w00 + w10 + w01 + w11 = 1" if "e = 0"
  proof -
    have I: "rnd t = t" if "0 \<le> t" "t \<le> 1" for t
      using R [OF that] \<open>e = 0\<close> by simp
    have a: "rnd (1 - dx) = 1 - dx" using dx by (intro I) simp_all
    have b: "rnd (1 - dy) = 1 - dy" using dy by (intro I) simp_all
    have "w00 = (1 - dx) * (1 - dy)"
      unfolding weq a b using dx dy by (intro I) (simp_all add: mult_le_one)
    moreover have "w10 = dx * (1 - dy)"
      unfolding weq a b using dx dy by (intro I) (simp_all add: mult_le_one)
    moreover have "w01 = (1 - dx) * dy"
      unfolding weq a b using dx dy by (intro I) (simp_all add: mult_le_one)
    moreover have "w11 = dx * dy"
      unfolding weq using dx dy by (intro I) (simp_all add: mult_le_one)
    moreover have "dx = x - of_int \<lfloor>x\<rfloor>" "dy = y - of_int \<lfloor>y\<rfloor>"
      using dx(3) dy(3) \<open>e = 0\<close> by simp_all
    moreover have "w00 + w10 + w01 + w11 = 1" using sm \<open>e = 0\<close> by simp
    ultimately show ?thesis by simp
  qed
  from fx fy dx dy weq wb sm tol exact show ?thesis by blast
qed

theorem C7_weights_witness:
  "unit_rounding rnd24 (1 / 33554432) \<and>
   Impl_init (projectPoints_spec rnd24) (Vector4 0 0 0 0)
      impl0 P_id
      [Vector4 (4/3) (5/3) 1 1, Vector4 (7/2) 0 1 1] [] 4 4
     = (\<lparr>stride = 4,
         interp_coeffs = [Vector4 (1864135/8388608) (1864135/16777216)
                                  (7456541/16777216) (1864135/8388608), Vector4 0 0 0 0],
         inds = [5, 0], valid_ptr = [True, False]\<rparr>, [True, False]) \<and>
   pixel_spec rnd24 P_id (Vector4 (4/3) (5/3) 1 1) = (22369621/16777216, 27962027/16777216) \<and>
   \<bar>(1864135/8388608 :: real) + 1864135/16777216 + 7456541/16777216 + 1864135/8388608 - 1\<bar>
     \<le> 1 / 10 ^ 6 \<and>
   unit_rounding (\<lambda>t. t) 0 \<and>
   Impl_init (projectPoints_spec (\<lambda>t. t)) (Vector4 0 0 0 0) impl0 P_id
      [Vector4 (3/2) (3/2) 1 1] [] 4 4
     = (\<lparr>stride = 4, interp_coeffs = [Vector4 (1/4) (1/4) (1/4) (1/4)], inds = [5],
         valid_ptr = [True]\<rparr>, [True]) \<and>
   (1/4 :: real) = (1 - (3/2 - of_int \<lfloor>3/2 :: real\<rfloor>)) * (1 - (3/2 - of_int \<lfloor>3/2 :: real\<rfloor>)) \<and>
   (1/4 :: real) + 1/4 + 1/4 + 1/4 = 1"
proof -
  have a: "Impl_init (projectPoints_spec rnd24) (Vector4 0 0 0 0)
      impl0 P_id
      [Vector4 (4/3) (5/3) 1 1, Vector4 (7/2) 0 1 1] [] 4 4
     = (\<lparr>stride = 4,
         interp_coeffs = [Vector4 (1864135/8388608) (1864135/16777216)
                                  (7456541/16777216) (1864135/8388608), Vector4 0 0 0 0],
         inds = [5, 0], valid_ptr = [True, False]\<rparr>, [True, False])"
    by code_simp
  have b: "(0::nat) < length [Vector4 (4/3) (5/3) 1 1, Vector4 (7/2) 0 1 (1::real)]" by simp
  have c: "[True, False] ! 0" by simp
  have d: "interp_coeffs \<lparr>stride = 4,
         interp_coeffs = [Vector4 (1864135/8388608) (1864135/16777216)
                                  (7456541/16777216) (1864135/8388608), Vector4 0 0 0 0],
         inds = [5, 0], valid_ptr = [True, False]\<rparr> ! 0
       = Vector4 (1864135/8388608) (1864135/16777216) (7456541/16777216) (1864135/8388608 :: real)"
    by simp
  have p: "pixel_spec rnd24 P_id ([Vector4 (4/3) (5/3) 1 1, Vector4 (7/2) 0 1 1] ! 0)
             = (22369621/16777216, 27962027/16777216)"
    by code_simp
  have q: "pixel_spec rnd24 P_id (Vector4 (4/3) (5/3) 1 1)
             = (22369621/16777216, 27962027/16777216)"
    by code_simp
  have u: "unit_rounding rnd24 (1 / 33554432)" by (rule unit_rounding_rnd24)
  have s: "(1 / 33554432 :: real) \<le> 1 / 10 ^ 7" by simp
  from C7_weights [OF a b c d p refl refl u] s
  have "\<bar>(1864135/8388608 :: real) + 1864135/16777216 + 7456541/16777216 + 1864135/8388608 - 1\<bar>
     \<le> 1 / 10 ^ 6"
    by blast
  then have first: "unit_rounding rnd24 (1 / 33554432) \<and>
   Impl_init (projectPoints_spec rnd24) (Vector4 0 0 0 0) impl0 P_id
      [Vector4 (4/3) (5/3) 1 1, Vector4 (7/2) 0 1 1] [] 4 4
     = (\<lparr>stride = 4,
         interp_coeffs = [Vector4 (1864135/8388608) (1864135/16777216)
                                  (7456541/16777216) (1864135/8388608), Vector4 0 0 0 0],
         inds = [5, 0], valid_ptr = [True, False]\<rparr>, [True, False]) \<and>
   pixel_spec rnd24 P_id (Vector4 (4/3) (5/3) 1 1) = (22369621/16777216, 27962027/16777216) \<and>
   \<bar>(1864135/8388608 :: real) + 1864135/16777216 + 7456541/16777216 + 1864135/8388608 - 1\<bar>
     \<le> 1 / 10 ^ 6"
    using a q u by (intro conjI)
  have a2: "Impl_init (projectPoints_spec (\<lambda>t. t)) (Vector4 0 0 0 0) impl0 P_id
      [Vector4 (3/2) (3/2) 1 1] [] 4 4
     = (\<lparr>stride = 4, interp_coeffs = [Vector4 (1/4) (1/4) (1/4) (1/4)], inds = [5],
         valid_ptr = [True]\<rparr>, [True])"
    by code_simp
  have b2: "(0::nat) < length [Vector4 (3/2) (3/2) 1 (1::real)]" by simp
  have c2: "[True] ! 0" by simp
  have d2: "interp_coeffs \<lparr>stride = 4, interp_coeffs = [Vector4 (1/4) (1/4) (1/4) (1/4)],
         inds = [5], valid_ptr = [True]\<rparr> ! 0 = Vector4 (1/4) (1/4) (1/4) (1/4 :: real)"
    by simp
  have p2: "pixel_spec (\<lambda>t. t) P_id ([Vector4 (3/2) (3/2) 1 1] ! 0) = (3/2, 3/2)"
    by code_simp
  have u2: "unit_rounding (\<lambda>t. t) 0" by (rule unit_rounding_exact)
  from C7_weights [OF a2 b2 c2 d2 p2 refl refl u2]
  have "(1/4 :: real) = (1 - (3/2 - of_int \<lfloor>3/2 :: real\<rfloor>)) * (1 - (3/2 - of_int \<lfloor>3/2 :: real\<rfloor>))"
    and "(1/4 :: real) + 1/4 + 1/4 + 1/4 = 1"
    by blast+
  with first a2 u2 show ?thesis by (intro conjI) blast+
qed

end
